theory Spec2Isabelle
  imports Main
begin

section \<open>Values\<close>

text \<open>
  Modelled from the spec: the value system (packages \<open>types\<close>, \<open>ref\<close> and
  \<open>traits\<close>), which \<open>interpreter/decorators.go\<close> imports and does not define.
  Section 3 ("Value") describes an opaque tagged union with the two sentinel kinds Error
  and Unknown plus ordinary typed values. Equality of the datatype is the key equality of
  the Go map \<open>map[ref.Val]ref.Val\<close>: same dynamic type and same content.
  Floating-point and byte-string values are left out, their key equality is not structural.
\<close>

datatype val =
    BoolVal bool
  | IntVal int
  | UintVal nat
  | StringVal string
  | NullVal
  | ListVal "val list"
  | MapVal "(val \<times> val) list"
  | ErrVal string
  | UnknownVal "int list"

datatype type = BoolType | IntType | UintType | StringType | NullType
  | ListType | MapType | ErrType | UnknownType

datatype trait = IterableType

text \<open>Modelled from the spec: \<open>ref.Val.Type()\<close>, the type tag of a value.\<close>

fun Type :: "val \<Rightarrow> type" where
  "Type (BoolVal b) = BoolType"
| "Type (IntVal n) = IntType"
| "Type (UintVal n) = UintType"
| "Type (StringVal s) = StringType"
| "Type NullVal = NullType"
| "Type (ListVal xs) = ListType"
| "Type (MapVal kvs) = MapType"
| "Type (ErrVal m) = ErrType"
| "Type (UnknownVal ids) = UnknownType"

text \<open>Modelled from the spec: \<open>ref.Type.TypeName()\<close>, one name for each type tag.\<close>

fun TypeName :: "type \<Rightarrow> string" where
  "TypeName BoolType = ''bool''"
| "TypeName IntType = ''int''"
| "TypeName UintType = ''uint''"
| "TypeName StringType = ''string''"
| "TypeName NullType = ''null_type''"
| "TypeName ListType = ''list''"
| "TypeName MapType = ''map''"
| "TypeName ErrType = ''error''"
| "TypeName UnknownType = ''unknown''"

text \<open>
  Modelled from the spec: the trait query \<open>ref.Type.HasTrait\<close>. Lists and maps are the
  values that support iteration.
\<close>

fun HasTrait :: "type \<Rightarrow> trait \<Rightarrow> bool" where
  "HasTrait ListType IterableType = True"
| "HasTrait MapType IterableType = True"
| "HasTrait t IterableType = False"

text \<open>
  Modelled from the spec: \<open>traits.Iterable.Iterator()\<close>, as the sequence of values that
  \<open>HasNext\<close>/\<open>Next\<close> deliver. A list delivers its elements in order, a map its keys.
\<close>

fun Iterator :: "val \<Rightarrow> val list" where
  "Iterator (ListVal xs) = xs"
| "Iterator (MapVal kvs) = map fst kvs"
| "Iterator v = []"

text \<open>
  Modelled from the spec: the Go type assertion \<open>v.(traits.Lister)\<close>. It succeeds on
  list values only; \<open>None\<close> is the failed assertion, on which Go panics.
\<close>

fun asLister :: "val \<Rightarrow> val list option" where
  "asLister (ListVal xs) = Some xs"
| "asLister v = None"

text \<open>
  Modelled from the spec: the Go type assertion \<open>v.(types.Bool)\<close>, the boolean when
  the value is one (the \<open>ok\<close> flag), \<open>None\<close> otherwise.
\<close>

fun asBool :: "val \<Rightarrow> bool option" where
  "asBool (BoolVal b) = Some b"
| "asBool v = None"

text \<open>Modelled from the spec: \<open>types.IsUnknown\<close> and the Error kind test.\<close>

definition IsUnknown :: "val \<Rightarrow> bool" where
  "IsUnknown v = (Type v = UnknownType)"

definition IsError :: "val \<Rightarrow> bool" where
  "IsError v = (Type v = ErrType)"

text \<open>
  Modelled from the spec: \<open>types.IsPrimitiveType\<close>. The specification names the
  primitive types as "bool, int, string, etc."; of the kinds modelled here these are the
  boolean, the two integer kinds and the string.
\<close>

definition IsPrimitiveType :: "val \<Rightarrow> bool" where
  "IsPrimitiveType v = (Type v \<in> {BoolType, IntType, UintType, StringType})"

text \<open>
  Modelled from the spec: \<open>types.ValOrErr(val, format, args...)\<close>, which is not defined
  in \<open>decorators.go\<close>. The specification describes its result as an Error "keyed off" the
  value and, for the fold range, as "whatever error the range-evaluation produces": a value
  that is already an Error is returned as it is, any other value yields a new Error
  carrying the formatted message.
\<close>

definition ValOrErr :: "val \<Rightarrow> string \<Rightarrow> val" where
  "ValOrErr v msg = (if IsError v then v else ErrVal msg)"

text \<open>
  Modelled from the spec: the Go types of the value kinds, which package \<open>types\<close>
  declares (\<open>types.Bool\<close>, \<open>types.Int\<close>, ...), as the verb \<open>%T\<close> prints them, with
  the package name. A list or a map has one of several Go types; both are iterable, so the
  message below is never made for them, and the name of the interface stands for the type.
\<close>

fun goType :: "val \<Rightarrow> string" where
  "goType (BoolVal b) = ''types.Bool''"
| "goType (IntVal n) = ''types.Int''"
| "goType (UintVal n) = ''types.Uint''"
| "goType (StringVal s) = ''types.String''"
| "goType NullVal = ''types.Null''"
| "goType (ListVal xs) = ''traits.Lister''"
| "goType (MapVal kvs) = ''traits.Mapper''"
| "goType (ErrVal m) = ''*types.Err''"
| "goType (UnknownVal ids) = ''types.Unknown''"

text \<open>
  The formatted message of the fold's range check, \<open>"got '%T', expected iterable type"\<close>
  with the range value as argument. The character \<open>0x27\<close> is the single quote.
\<close>

definition expectedIterable :: "val \<Rightarrow> string" where
  "expectedIterable v =
     ''got '' @ [CHR 0x27] @ goType v @ [CHR 0x27] @ '', expected iterable type''"

section \<open>Activations and the pool of scratch activations\<close>

text \<open>
  Modelled from the spec: the activations (section 3, "Activation", and section 4.1),
  declared outside \<open>decorators.go\<close>. An activation maps variable names to values and
  is chained to an optional parent, the child scope shadowing the parent. A
  \<open>varActivation\<close> is the scratch activation of a fold, with the three fields that
  \<open>evalExhaustiveFold.Eval\<close> assigns: a parent, one name slot and one value slot. The
  fields are Go pointers and interfaces, whose zero value \<open>nil\<close> is \<open>None\<close>.
\<close>

datatype activation =
    EmptyActivation
  | MapActivation "(string \<times> val) list"
  | Var varActivation
and varActivation =
    VarActivation (parent: "activation option") (name: string) (val: "val option")

text \<open>
  Modelled from the spec: \<open>Activation.ResolveName\<close>, \<open>None\<close> for a name that is not
  found. A slot that was never assigned resolves to nothing.
\<close>

fun ResolveName :: "activation \<Rightarrow> string \<Rightarrow> val option"
  and ResolveNameVar :: "varActivation \<Rightarrow> string \<Rightarrow> val option"
  and ResolveNameParent :: "activation option \<Rightarrow> string \<Rightarrow> val option" where
  "ResolveName EmptyActivation n = None"
| "ResolveName (MapActivation m) n = map_of m n"
| "ResolveName (Var v) n = ResolveNameVar v n"
| "ResolveNameVar (VarActivation p nm x) n =
     (if n = nm then x else ResolveNameParent p n)"
| "ResolveNameParent None n = None"
| "ResolveNameParent (Some a) n = ResolveName a n"

text \<open>
  The state an evaluation threads: the contents of \<open>varActivationPool\<close> and the state
  \<open>observed\<close> that the observers of the tracing decorator act on.
\<close>

record 'st state =
  varActivationPool :: "varActivation list"
  observed :: 'st

text \<open>
  Modelled from the spec: the pool of scratch activations (a Go \<open>sync.Pool\<close>).
  \<open>Get\<close> hands out a pooled object, or a new zero-valued one when the pool is empty;
  \<open>Put\<close> returns an object to the pool as it is.
\<close>

definition poolGet :: "'st state \<Rightarrow> varActivation \<times> 'st state" where
  "poolGet s =
     (case varActivationPool s of
        [] \<Rightarrow> (VarActivation None [] None, s)
      | v # vs \<Rightarrow> (v, s\<lparr>varActivationPool := vs\<rparr>))"

definition poolPut :: "varActivation \<Rightarrow> 'st state \<Rightarrow> 'st state" where
  "poolPut v s = s\<lparr>varActivationPool := v # varActivationPool s\<rparr>"

text \<open>Assignments to the fields of a scratch activation.\<close>

fun setParent :: "activation \<Rightarrow> varActivation \<Rightarrow> varActivation" where
  "setParent p (VarActivation p0 nm x) = VarActivation (Some p) nm x"

fun setName :: "string \<Rightarrow> varActivation \<Rightarrow> varActivation" where
  "setName nm (VarActivation p nm0 x) = VarActivation p nm x"

fun setVal :: "val \<Rightarrow> varActivation \<Rightarrow> varActivation" where
  "setVal x (VarActivation p nm x0) = VarActivation p nm (Some x)"

section \<open>Interpretable nodes\<close>

text \<open>
  The implementations of the \<open>Interpretable\<close> interface that \<open>decorators.go\<close> names.
  The six last ones are declared in the file. The others are declared elsewhere in the
  package; they carry the fields that the file reads and, for an identifier and a binary
  call, what section 3 of the specification lists (the name; the function \<open>impl\<close> that
  the overload is bound to). An \<open>evalObserver\<close> is a Go closure called for its effect:
  a function on the observed state.
\<close>

type_synonym 'st evalObserver = "int \<Rightarrow> val \<Rightarrow> 'st \<Rightarrow> 'st"

datatype 'st Interpretable =
    EvalConst int val
  | EvalIdent int string
  | EvalBinary int string "'st Interpretable" "'st Interpretable" "val \<Rightarrow> val \<Rightarrow> val"
  | EvalOr int "'st Interpretable" "'st Interpretable"
  | EvalAnd int "'st Interpretable" "'st Interpretable"
  | EvalConditional int "'st Interpretable" "'st Interpretable" "'st Interpretable"
  | EvalList int "'st Interpretable list"
  | EvalMap int "'st Interpretable list" "'st Interpretable list"
  | EvalFold int string string "'st Interpretable" "'st Interpretable"
      "'st Interpretable" "'st Interpretable" "'st Interpretable"
  | EvalSetMembership "'st Interpretable" "'st Interpretable" string "val \<rightharpoonup> val"
  | EvalWatch "'st Interpretable" "'st evalObserver"
  | EvalExhaustiveOr int "'st Interpretable" "'st Interpretable"
  | EvalExhaustiveAnd int "'st Interpretable" "'st Interpretable"
  | EvalExhaustiveConditional int "'st Interpretable" "'st Interpretable" "'st Interpretable"
  | EvalExhaustiveFold int string string "'st Interpretable" "'st Interpretable"
      "'st Interpretable" "'st Interpretable" "'st Interpretable"

text \<open>
  \<open>ID\<close>, as \<open>decorators.go\<close> defines it for its six node kinds: the two wrappers
  delegate to the wrapped node, the exhaustive kinds return their \<open>id\<close> field.
  Modelled from the spec: the \<open>ID\<close> of the node kinds declared outside the file is
  their \<open>id\<close> field, the stable identifier of section 3.
\<close>

fun ID :: "'st Interpretable \<Rightarrow> int" where
  "ID (EvalConst i v) = i"
| "ID (EvalIdent i n) = i"
| "ID (EvalBinary i ov l r impl) = i"
| "ID (EvalOr i l r) = i"
| "ID (EvalAnd i l r) = i"
| "ID (EvalConditional i c t f) = i"
| "ID (EvalList i es) = i"
| "ID (EvalMap i ks vs) = i"
| "ID (EvalFold i av iv rng acc c st res) = i"
| "ID (EvalSetMembership inst arg tn vset) = ID inst"
| "ID (EvalWatch inst obs) = ID inst"
| "ID (EvalExhaustiveOr i l r) = i"
| "ID (EvalExhaustiveAnd i l r) = i"
| "ID (EvalExhaustiveConditional i c t f) = i"
| "ID (EvalExhaustiveFold i av iv rng acc c st res) = i"

section \<open>Evaluation\<close>

text \<open>
  \<open>Eval node ctx s\<close> is \<open>node.Eval(ctx)\<close> run in state \<open>s\<close>: the value returned and
  the state left behind. The equations of the six node kinds of \<open>decorators.go\<close>
  (SetMembership, Watch and the four exhaustive kinds) follow the Go text statement by
  statement, \<open>exhaustiveFoldLoop\<close> being the \<open>for\<close> loop of the exhaustive fold.

  The Go fold holds two pointers, \<open>accuCtx\<close> and \<open>iterCtx\<close>, with
  \<open>iterCtx.parent = accuCtx\<close>: an assignment to \<open>accuCtx.val\<close> is seen through
  \<open>iterCtx\<close>. The loops below carry the two objects as values, and every assignment to
  \<open>accuCtx.val\<close> also renews the parent field of \<open>iterCtx\<close>, which is what the
  shared pointer does.
\<close>

text \<open>
  Modelled from the spec: the evaluation of the node kinds declared outside
  \<open>decorators.go\<close> (the equations of Const, Ident, Binary, Or, And, Conditional, List, Map
  and Fold, with \<open>EvalElems\<close>, \<open>EvalEntries\<close> and \<open>foldLoop\<close>).
  \<^item> Const returns its value. An identifier resolves its name in the activation; a name
    that is not bound is an Unknown carrying the node id.
  \<^item> A Binary call evaluates both operands, left first, and applies its implementation.
  \<^item> Or, And and Conditional are the short-circuiting forms of their exhaustive twins:
    the right operand is evaluated only if the left one does not decide, and only the
    selected branch of a conditional is evaluated.
  \<^item> A List evaluates its elements in order, a Map its keys and values index-aligned
    (section 3 requires the two sequences to have the same length).
  \<^item> Fold is the exhaustive fold that stops iterating as soon as the condition evaluates to
    boolean False (section 9).
\<close>

function Eval :: "'st Interpretable \<Rightarrow> activation \<Rightarrow> 'st state \<Rightarrow> val \<times> 'st state"
  and EvalElems :: "'st Interpretable list \<Rightarrow> activation \<Rightarrow> 'st state
      \<Rightarrow> val list \<times> 'st state"
  and EvalEntries :: "'st Interpretable list \<Rightarrow> 'st Interpretable list \<Rightarrow> activation
      \<Rightarrow> 'st state \<Rightarrow> (val \<times> val) list \<times> 'st state"
  and foldLoop :: "'st Interpretable \<Rightarrow> 'st Interpretable \<Rightarrow> val list
      \<Rightarrow> varActivation \<Rightarrow> varActivation \<Rightarrow> 'st state
      \<Rightarrow> varActivation \<times> varActivation \<times> 'st state"
  and exhaustiveFoldLoop :: "'st Interpretable \<Rightarrow> 'st Interpretable \<Rightarrow> val list
      \<Rightarrow> varActivation \<Rightarrow> varActivation \<Rightarrow> 'st state
      \<Rightarrow> varActivation \<times> varActivation \<times> 'st state"
where
  "Eval (EvalConst i v) ctx s = (v, s)"
| "Eval (EvalIdent i n) ctx s =
     (case ResolveName ctx n of Some v \<Rightarrow> (v, s) | None \<Rightarrow> (UnknownVal [i], s))"
| "Eval (EvalBinary i ov lhs rhs impl) ctx s =
     (case Eval lhs ctx s of (lVal, s1) \<Rightarrow>
      case Eval rhs ctx s1 of (rVal, s2) \<Rightarrow> (impl lVal rVal, s2))"
| "Eval (EvalOr i lhs rhs) ctx s =
     (case Eval lhs ctx s of (lVal, s1) \<Rightarrow>
      if asBool lVal = Some True then (BoolVal True, s1)
      else case Eval rhs ctx s1 of (rVal, s2) \<Rightarrow>
        if asBool rVal = Some True then (BoolVal True, s2)
        else if asBool lVal \<noteq> None \<and> asBool rVal \<noteq> None then (BoolVal False, s2)
        else if IsUnknown lVal then (lVal, s2)
        else if IsUnknown rVal then (rVal, s2)
        else (ValOrErr lVal ''no such overload'', s2))"
| "Eval (EvalAnd i lhs rhs) ctx s =
     (case Eval lhs ctx s of (lVal, s1) \<Rightarrow>
      if asBool lVal = Some False then (BoolVal False, s1)
      else case Eval rhs ctx s1 of (rVal, s2) \<Rightarrow>
        if asBool rVal = Some False then (BoolVal False, s2)
        else if asBool lVal \<noteq> None \<and> asBool rVal \<noteq> None then (BoolVal True, s2)
        else if IsUnknown lVal then (lVal, s2)
        else if IsUnknown rVal then (rVal, s2)
        else (ValOrErr lVal ''no such overload'', s2))"
| "Eval (EvalConditional i expr truthy falsy) ctx s =
     (case Eval expr ctx s of (cVal, s1) \<Rightarrow>
      (case asBool cVal of
         None \<Rightarrow> (ValOrErr cVal ''no such overload'', s1)
       | Some cBool \<Rightarrow> if cBool then Eval truthy ctx s1 else Eval falsy ctx s1))"
| "Eval (EvalList i elems) ctx s =
     (case EvalElems elems ctx s of (vs, s1) \<Rightarrow> (ListVal vs, s1))"
| "Eval (EvalMap i keys vals) ctx s =
     (case EvalEntries keys vals ctx s of (kvs, s1) \<Rightarrow> (MapVal kvs, s1))"
| "Eval (EvalFold i accuVar iterVar iterRange accu cond step result) ctx s =
     (case Eval iterRange ctx s of (foldRange, s1) \<Rightarrow>
      if \<not> HasTrait (Type foldRange) IterableType
      then (ValOrErr foldRange (expectedIterable foldRange), s1)
      else
        case poolGet s1 of (accuCtx0, s2) \<Rightarrow>
        case Eval accu ctx s2 of (accuVal, s3) \<Rightarrow>
        case poolGet s3 of (iterCtx0, s4) \<Rightarrow>
        let accuCtx = setVal accuVal (setName accuVar (setParent ctx accuCtx0));
            iterCtx = setName iterVar (setParent (Var accuCtx) iterCtx0)
        in
        case foldLoop cond step (Iterator foldRange) accuCtx iterCtx s4 of
          (accuCtx', iterCtx', s5) \<Rightarrow>
        case Eval result (Var accuCtx') s5 of (res, s6) \<Rightarrow>
          (res, poolPut accuCtx' (poolPut iterCtx' s6)))"
| "Eval (EvalSetMembership inst arg argTypeName valueSet) ctx s =
     (case Eval arg ctx s of (v, s1) \<Rightarrow>
      if TypeName (Type v) \<noteq> argTypeName then (ValOrErr v ''no such overload'', s1)
      else (case valueSet v of
              Some ret \<Rightarrow> (ret, s1)
            | None \<Rightarrow> (BoolVal False, s1)))"
| "Eval (EvalWatch inst observer) ctx s =
     (case Eval inst ctx s of (v, s1) \<Rightarrow>
        (v, s1\<lparr>observed := observer (ID inst) v (observed s1)\<rparr>))"
| "Eval (EvalExhaustiveOr i lhs rhs) ctx s =
     (case Eval lhs ctx s of (lVal, s1) \<Rightarrow>
      case Eval rhs ctx s1 of (rVal, s2) \<Rightarrow>
        if asBool lVal = Some True then (BoolVal True, s2)
        else if asBool rVal = Some True then (BoolVal True, s2)
        else if asBool lVal \<noteq> None \<and> asBool rVal \<noteq> None then (BoolVal False, s2)
        else if IsUnknown lVal then (lVal, s2)
        else if IsUnknown rVal then (rVal, s2)
        else (ValOrErr lVal ''no such overload'', s2))"
| "Eval (EvalExhaustiveAnd i lhs rhs) ctx s =
     (case Eval lhs ctx s of (lVal, s1) \<Rightarrow>
      case Eval rhs ctx s1 of (rVal, s2) \<Rightarrow>
        if asBool lVal = Some False then (BoolVal False, s2)
        else if asBool rVal = Some False then (BoolVal False, s2)
        else if asBool lVal \<noteq> None \<and> asBool rVal \<noteq> None then (BoolVal True, s2)
        else if IsUnknown lVal then (lVal, s2)
        else if IsUnknown rVal then (rVal, s2)
        else (ValOrErr lVal ''no such overload'', s2))"
| "Eval (EvalExhaustiveConditional i expr truthy falsy) ctx s =
     (case Eval expr ctx s of (cVal, s1) \<Rightarrow>
      case Eval truthy ctx s1 of (tVal, s2) \<Rightarrow>
      case Eval falsy ctx s2 of (fVal, s3) \<Rightarrow>
      (case asBool cVal of
         None \<Rightarrow> (ValOrErr cVal ''no such overload'', s3)
       | Some cBool \<Rightarrow> if cBool then (tVal, s3) else (fVal, s3)))"
| "Eval (EvalExhaustiveFold i accuVar iterVar iterRange accu cond step result) ctx s =
     (case Eval iterRange ctx s of (foldRange, s1) \<Rightarrow>
      if \<not> HasTrait (Type foldRange) IterableType
      then (ValOrErr foldRange (expectedIterable foldRange), s1)
      else
        case poolGet s1 of (accuCtx0, s2) \<Rightarrow>
        case Eval accu ctx s2 of (accuVal, s3) \<Rightarrow>
        case poolGet s3 of (iterCtx0, s4) \<Rightarrow>
        let accuCtx = setVal accuVal (setName accuVar (setParent ctx accuCtx0));
            iterCtx = setName iterVar (setParent (Var accuCtx) iterCtx0)
        in
        case exhaustiveFoldLoop cond step (Iterator foldRange) accuCtx iterCtx s4 of
          (accuCtx', iterCtx', s5) \<Rightarrow>
        case Eval result (Var accuCtx') s5 of (res, s6) \<Rightarrow>
          (res, poolPut accuCtx' (poolPut iterCtx' s6)))"
| "EvalElems [] ctx s = ([], s)"
| "EvalElems (e # es) ctx s =
     (case Eval e ctx s of (v, s1) \<Rightarrow>
      case EvalElems es ctx s1 of (vs, s2) \<Rightarrow> (v # vs, s2))"
| "EvalEntries [] vals ctx s = ([], s)"
| "EvalEntries (k # ks) [] ctx s = ([], s)"
| "EvalEntries (k # ks) (v # vs) ctx s =
     (case Eval k ctx s of (keyVal, s1) \<Rightarrow>
      case Eval v ctx s1 of (valVal, s2) \<Rightarrow>
      case EvalEntries ks vs ctx s2 of (kvs, s3) \<Rightarrow> ((keyVal, valVal) # kvs, s3))"
| "foldLoop cond step [] accuCtx iterCtx s = (accuCtx, iterCtx, s)"
| "foldLoop cond step (x # xs) accuCtx iterCtx s =
     (let iterCtx1 = setVal x iterCtx in
      case Eval cond (Var iterCtx1) s of (c, s1) \<Rightarrow>
      if c = BoolVal False then (accuCtx, iterCtx1, s1)
      else
        case Eval step (Var iterCtx1) s1 of (stepVal, s2) \<Rightarrow>
        let accuCtx1 = setVal stepVal accuCtx in
        foldLoop cond step xs accuCtx1 (setParent (Var accuCtx1) iterCtx1) s2)"
| "exhaustiveFoldLoop cond step [] accuCtx iterCtx s = (accuCtx, iterCtx, s)"
| "exhaustiveFoldLoop cond step (x # xs) accuCtx iterCtx s =
     (let iterCtx1 = setVal x iterCtx in
      case Eval cond (Var iterCtx1) s of (c, s1) \<Rightarrow>
      case Eval step (Var iterCtx1) s1 of (stepVal, s2) \<Rightarrow>
      let accuCtx1 = setVal stepVal accuCtx in
      exhaustiveFoldLoop cond step xs accuCtx1 (setParent (Var accuCtx1) iterCtx1) s2)"
  by pat_completeness auto
termination
  by (relation "inv_image (less_than <*lex*> less_than)
       (\<lambda>x. case x of
           Inl (Inl (n, ctx, s)) \<Rightarrow> (2 * size n + 1, 0)
         | Inl (Inr (es, ctx, s)) \<Rightarrow> (2 * size_list size es + 2, 0)
         | Inr (Inl (ks, vs, ctx, s)) \<Rightarrow>
             (2 * (size_list size ks + size_list size vs) + 2, 0)
         | Inr (Inr (Inl (c, st, xs, a, it, s))) \<Rightarrow>
             (2 * (size c + size st) + 2, length xs)
         | Inr (Inr (Inr (c, st, xs, a, it, s))) \<Rightarrow>
             (2 * (size c + size st) + 2, length xs))")
     auto

section \<open>Decorators\<close>

text \<open>
  An \<open>InterpretableDecorator\<close> returns \<open>(Interpretable, error)\<close>; \<open>Decorated n e\<close>
  is that pair, with \<open>None\<close> for the \<open>nil\<close> error. \<open>Panic\<close> is a Go run-time
  panic: a failed type assertion, an index out of range or a \<open>nil\<close> dereference.
\<close>

datatype 'st decorated = Decorated "'st Interpretable" "string option" | Panic string

definition decObserveEval :: "'st evalObserver \<Rightarrow> 'st Interpretable \<Rightarrow> 'st decorated" where
  "decObserveEval observer i = Decorated (EvalWatch i observer) None"

fun decDisableShortcircuits :: "'st Interpretable \<Rightarrow> 'st decorated" where
  "decDisableShortcircuits (EvalOr i lhs rhs) = Decorated (EvalExhaustiveOr i lhs rhs) None"
| "decDisableShortcircuits (EvalAnd i lhs rhs) = Decorated (EvalExhaustiveAnd i lhs rhs) None"
| "decDisableShortcircuits (EvalConditional i expr truthy falsy) =
     Decorated (EvalExhaustiveConditional i expr truthy falsy) None"
| "decDisableShortcircuits (EvalFold i accuVar iterVar iterRange accu cond step result) =
     Decorated (EvalExhaustiveFold i accuVar iterVar iterRange accu cond step result) None"
| "decDisableShortcircuits i = Decorated i None"

text \<open>The type assertion \<open>elem.(*evalConst)\<close>, its \<open>isConst\<close> flag.\<close>

fun isConst :: "'st Interpretable \<Rightarrow> bool" where
  "isConst (EvalConst i v) = True"
| "isConst n = False"

text \<open>
  \<open>maybeBuildListLiteral i l\<close>, with the fields \<open>l.id\<close> and \<open>l.elems\<close> of the list
  node. The loop returns \<open>i\<close> at the first element that is not a constant. The evaluation
  of the list happens in the state of the build.
\<close>

definition maybeBuildListLiteral ::
  "'st Interpretable \<Rightarrow> int \<Rightarrow> 'st Interpretable list \<Rightarrow> 'st state
    \<Rightarrow> 'st decorated \<times> 'st state" where
  "maybeBuildListLiteral i lid elems s =
     (if \<exists>elem \<in> set elems. \<not> isConst elem then (Decorated i None, s)
      else case Eval (EvalList lid elems) EmptyActivation s of
        (v, s1) \<Rightarrow> (Decorated (EvalConst lid v) None, s1))"

text \<open>
  The loop of \<open>maybeBuildMapLiteral\<close> over \<open>mp.keys\<close>, reading \<open>mp.vals[idx]\<close>:
  \<open>Some r\<close> when the loop returns \<open>r\<close>, \<open>None\<close> when it runs to its end. The index
  is out of range when the values run out before the keys.
\<close>

fun mapLiteralLoop :: "'st Interpretable \<Rightarrow> 'st Interpretable list \<Rightarrow> 'st Interpretable list
    \<Rightarrow> 'st decorated option" where
  "mapLiteralLoop i [] vals = None"
| "mapLiteralLoop i (key # keys) [] =
     (if \<not> isConst key then Some (Decorated i None)
      else Some (Panic ''index out of range''))"
| "mapLiteralLoop i (key # keys) (v # vals) =
     (if \<not> isConst key then Some (Decorated i None)
      else if \<not> isConst v then Some (Decorated i None)
      else mapLiteralLoop i keys vals)"

definition maybeBuildMapLiteral ::
  "'st Interpretable \<Rightarrow> int \<Rightarrow> 'st Interpretable list \<Rightarrow> 'st Interpretable list \<Rightarrow> 'st state
    \<Rightarrow> 'st decorated \<times> 'st state" where
  "maybeBuildMapLiteral i mid keys vals s =
     (case mapLiteralLoop i keys vals of
        Some r \<Rightarrow> (r, s)
      | None \<Rightarrow>
         (case Eval (EvalMap mid keys vals) EmptyActivation s of
            (v, s1) \<Rightarrow> (Decorated (EvalConst mid v) None, s1)))"

text \<open>
  The loop of \<open>maybeOptimizeSetMembership\<close> over the iterator of the list, with the
  variables \<open>typ\<close> (\<open>None\<close> is \<open>nil\<close>) and \<open>valueSet\<close>. \<open>None\<close> is the early
  \<open>return i, nil\<close>; \<open>Some\<close> carries the two variables out of the loop.
\<close>

fun setMembershipLoop :: "val list \<Rightarrow> type option \<Rightarrow> (val \<rightharpoonup> val)
    \<Rightarrow> (type option \<times> (val \<rightharpoonup> val)) option" where
  "setMembershipLoop [] typ valueSet = Some (typ, valueSet)"
| "setMembershipLoop (elem # rest) typ valueSet =
     (if \<not> IsPrimitiveType elem then None
      else case typ of
        None \<Rightarrow> setMembershipLoop rest (Some (Type elem)) (valueSet(elem \<mapsto> BoolVal True))
      | Some t \<Rightarrow>
          if TypeName t \<noteq> TypeName (Type elem) then None
          else setMembershipLoop rest typ (valueSet(elem \<mapsto> BoolVal True)))"

text \<open>
  \<open>maybeOptimizeSetMembership i inlist\<close>, with the fields \<open>inlist.id\<close>,
  \<open>inlist.lhs\<close> and \<open>inlist.rhs\<close> of the binary call; \<open>inlist\<close> and \<open>i\<close> are the
  same node.
\<close>

definition maybeOptimizeSetMembership ::
  "'st Interpretable \<Rightarrow> int \<Rightarrow> 'st Interpretable \<Rightarrow> 'st Interpretable \<Rightarrow> 'st decorated" where
  "maybeOptimizeSetMembership i inlistId lhs rhs =
     (case rhs of
        EvalConst lid lval \<Rightarrow>
          (case asLister lval of
             None \<Rightarrow> Panic ''interface conversion: not a traits.Lister''
           | Some list \<Rightarrow>
               if int (length list) = 0 then Decorated (EvalConst inlistId (BoolVal False)) None
               else
                 (case setMembershipLoop list None Map.empty of
                    None \<Rightarrow> Decorated i None
                  | Some (None, valueSet) \<Rightarrow> Panic ''nil pointer dereference''
                  | Some (Some typ, valueSet) \<Rightarrow>
                      Decorated (EvalSetMembership i lhs (TypeName typ) valueSet) None))
      | _ \<Rightarrow> Decorated i None)"

text \<open>
  Modelled from the spec: the constant \<open>overloads.InList\<close>, the overload tag of the
  list membership test.
\<close>

definition InList :: string where
  "InList = ''in_list''"

fun decOptimize :: "'st Interpretable \<Rightarrow> 'st state \<Rightarrow> 'st decorated \<times> 'st state" where
  "decOptimize (EvalList lid elems) s = maybeBuildListLiteral (EvalList lid elems) lid elems s"
| "decOptimize (EvalMap mid keys vals) s =
     maybeBuildMapLiteral (EvalMap mid keys vals) mid keys vals s"
| "decOptimize (EvalBinary cid overload lhs rhs impl) s =
     (if overload = InList
      then (maybeOptimizeSetMembership (EvalBinary cid overload lhs rhs impl) cid lhs rhs, s)
      else (Decorated (EvalBinary cid overload lhs rhs impl) None, s))"
| "decOptimize i s = (Decorated i None, s)"

section \<open>Reference definitions\<close>

text \<open>
  The result of the exhaustive logical operators in the words of the specification
  (section 4.4), as a function of the two operand values: for Or, True if either operand is
  boolean True, else False if both are boolean, else the Unknown operand (the left one
  preferred), else the Error made from the left value; And is symmetric, with False
  dominating.
\<close>

definition specExhaustiveOr :: "val \<Rightarrow> val \<Rightarrow> val" where
  "specExhaustiveOr l r =
     (if l = BoolVal True \<or> r = BoolVal True then BoolVal True
      else if Type l = BoolType \<and> Type r = BoolType then BoolVal False
      else if IsUnknown l then l
      else if IsUnknown r then r
      else ValOrErr l ''no such overload'')"

definition specExhaustiveAnd :: "val \<Rightarrow> val \<Rightarrow> val" where
  "specExhaustiveAnd l r =
     (if l = BoolVal False \<or> r = BoolVal False then BoolVal False
      else if Type l = BoolType \<and> Type r = BoolType then BoolVal True
      else if IsUnknown l then l
      else if IsUnknown r then r
      else ValOrErr l ''no such overload'')"

text \<open>An observer that appends each observation to a log.\<close>

definition traceObserver :: "(int \<times> val) list evalObserver" where
  "traceObserver i v log = log @ [(i, v)]"

text \<open>
  Two states that differ at most in the contents of the pool, and two results of an
  evaluation that differ at most there.
\<close>

definition sameObserved :: "'st state \<Rightarrow> 'st state \<Rightarrow> bool" where
  "sameObserved s t = (observed s = observed t)"

definition agree :: "'a \<times> 'st state \<Rightarrow> 'a \<times> 'st state \<Rightarrow> bool" where
  "agree r r' = (fst r = fst r' \<and> sameObserved (snd r) (snd r'))"

text \<open>
  The nodes the data model admits as input of the optimizer (section 3 and section 4.5):
  the keys and the values of a Map node are index-aligned sequences of the same length, and
  the constant on the right of a call tagged as list membership test holds a list value,
  as the comment in \<open>maybeOptimizeSetMembership\<close> states.
\<close>

definition wellFormed :: "'st Interpretable \<Rightarrow> bool" where
  "wellFormed n =
     (case n of
        EvalMap i keys vals \<Rightarrow> length keys = length vals
      | EvalBinary i ov lhs rhs impl \<Rightarrow>
          (case rhs of
             EvalConst c v \<Rightarrow> ov = InList \<longrightarrow> asLister v \<noteq> None
           | _ \<Rightarrow> True)
      | _ \<Rightarrow> True)"

text \<open>
  Implementations of binary calls for the examples: the linear membership test of a value
  in a list, and the sum of two integers.
\<close>

definition inListImpl :: "val \<Rightarrow> val \<Rightarrow> val" where
  "inListImpl v l =
     (case asLister l of
        Some xs \<Rightarrow> BoolVal (v \<in> set xs)
      | None \<Rightarrow> ValOrErr l ''no such overload'')"

definition addImpl :: "val \<Rightarrow> val \<Rightarrow> val" where
  "addImpl a b =
     (case (a, b) of
        (IntVal x, IntVal y) \<Rightarrow> IntVal (x + y)
      | _ \<Rightarrow> ValOrErr a ''no such overload'')"

text \<open>
  The exhaustive fold in the words of the specification (section 4.4), without the pool:
  every element of the range binds the iteration variable in a scope whose parent is the
  accumulator scope, the condition is evaluated there and its value dropped, and the value
  of the step becomes the accumulator; the result expression is evaluated in the
  accumulator scope that the last element leaves.
\<close>

definition specFoldStep :: "'st Interpretable \<Rightarrow> 'st Interpretable \<Rightarrow> activation \<Rightarrow> string
    \<Rightarrow> string \<Rightarrow> val \<times> 'st state \<Rightarrow> val \<Rightarrow> val \<times> 'st state" where
  "specFoldStep cond step ctx accuVar iterVar r x =
     (let scope = Var (VarActivation
            (Some (Var (VarActivation (Some ctx) accuVar (Some (fst r))))) iterVar (Some x))
      in Eval step scope (snd (Eval cond scope (snd r))))"

definition specExhaustiveFold :: "string \<Rightarrow> string \<Rightarrow> 'st Interpretable \<Rightarrow> 'st Interpretable
    \<Rightarrow> 'st Interpretable \<Rightarrow> 'st Interpretable \<Rightarrow> 'st Interpretable \<Rightarrow> activation
    \<Rightarrow> 'st state \<Rightarrow> val \<times> 'st state" where
  "specExhaustiveFold accuVar iterVar iterRange accu cond step result ctx s =
     (case Eval iterRange ctx s of (foldRange, s1) \<Rightarrow>
      if \<not> HasTrait (Type foldRange) IterableType
      then (ValOrErr foldRange (expectedIterable foldRange), s1)
      else
        case foldl (specFoldStep cond step ctx accuVar iterVar) (Eval accu ctx s1)
               (Iterator foldRange) of
          (accuVal, s2) \<Rightarrow> Eval result (Var (VarActivation (Some ctx) accuVar (Some accuVal))) s2)"

text \<open>
  The scenario of section 8: the sum of the list \<open>[1, 2, 3]\<close> as an exhaustive fold,
  with a watch on the condition.
\<close>

definition sumFold :: "(int \<times> val) list Interpretable" where
  "sumFold =
     EvalExhaustiveFold 1 ''accu'' ''i''
       (EvalConst 2 (ListVal [IntVal 1, IntVal 2, IntVal 3]))
       (EvalConst 3 (IntVal 0))
       (EvalWatch (EvalConst 4 (BoolVal False)) traceObserver)
       (EvalBinary 5 ''add_int64'' (EvalIdent 6 ''accu'') (EvalIdent 7 ''i'') addImpl)
       (EvalIdent 8 ''accu'')"

section \<open>Properties\<close>

subsection \<open>Values and type assertions\<close>

lemma ValOrErr_IsError: "IsError (ValOrErr v msg)"
  by (simp add: ValOrErr_def IsError_def)

subsection \<open>The exhaustive logical operators\<close>

text \<open>
  Claim C1. For every activation and every pair of operand nodes, the exhaustive Or and
  the exhaustive And evaluate the left operand and then the right operand, whatever their
  values are: the state left behind is the state after both evaluations. The value follows
  the dominance order of the specification; where neither a boolean nor an Unknown decides,
  it is an Error made from the left value.
\<close>

theorem exhaustive_or_and_dominance:
  assumes "Eval lhs ctx s = (lVal, s1)" and "Eval rhs ctx s1 = (rVal, s2)"
  shows "Eval (EvalExhaustiveOr i lhs rhs) ctx s = (specExhaustiveOr lVal rVal, s2)
       \<and> Eval (EvalExhaustiveAnd i lhs rhs) ctx s = (specExhaustiveAnd lVal rVal, s2)
       \<and> (lVal \<noteq> BoolVal True \<and> rVal \<noteq> BoolVal True
            \<and> \<not> (Type lVal = BoolType \<and> Type rVal = BoolType)
            \<and> \<not> IsUnknown lVal \<and> \<not> IsUnknown rVal
          \<longrightarrow> IsError (specExhaustiveOr lVal rVal))
       \<and> (lVal \<noteq> BoolVal False \<and> rVal \<noteq> BoolVal False
            \<and> \<not> (Type lVal = BoolType \<and> Type rVal = BoolType)
            \<and> \<not> IsUnknown lVal \<and> \<not> IsUnknown rVal
          \<longrightarrow> IsError (specExhaustiveAnd lVal rVal))"
  using assms
  by (cases lVal; cases rVal;
      simp add: specExhaustiveOr_def specExhaustiveAnd_def IsUnknown_def ValOrErr_IsError)

theorem exhaustive_or_and_dominance_witness:
  "Eval (EvalExhaustiveOr 0 (EvalConst 1 (BoolVal True))
           (EvalWatch (EvalConst 2 (ErrVal ''boom'')) traceObserver))
        EmptyActivation \<lparr>varActivationPool = [], observed = []\<rparr>
     = (BoolVal True, \<lparr>varActivationPool = [], observed = [(2, ErrVal ''boom'')]\<rparr>)
   \<and> Eval (EvalExhaustiveAnd 0 (EvalConst 1 (BoolVal True))
           (EvalWatch (EvalConst 2 (ErrVal ''boom'')) traceObserver))
        EmptyActivation \<lparr>varActivationPool = [], observed = []\<rparr>
     = (ErrVal ''no such overload'',
        \<lparr>varActivationPool = [], observed = [(2, ErrVal ''boom'')]\<rparr>)"
proof -
  have l: "Eval (EvalConst 1 (BoolVal True)) EmptyActivation
             \<lparr>varActivationPool = [], observed = []\<rparr>
           = (BoolVal True, \<lparr>varActivationPool = [], observed = []\<rparr>)"
    by simp
  have r: "Eval (EvalWatch (EvalConst 2 (ErrVal ''boom'')) traceObserver) EmptyActivation
             \<lparr>varActivationPool = [], observed = []\<rparr>
           = (ErrVal ''boom'', \<lparr>varActivationPool = [], observed = [(2, ErrVal ''boom'')]\<rparr>)"
    by (simp add: traceObserver_def)
  show ?thesis
    using exhaustive_or_and_dominance [OF l r, of 0]
    by (simp add: specExhaustiveOr_def specExhaustiveAnd_def ValOrErr_def IsError_def
        IsUnknown_def)
qed

subsection \<open>The exhaustive conditional\<close>

text \<open>
  Claim C5. For every activation the exhaustive conditional evaluates the condition, the
  truthy branch and the falsy branch, in this order and whatever the condition is. If the
  condition value is not a boolean the result is an Error; otherwise it is the value
  already computed for the truthy branch when the condition is True, and the one of the
  falsy branch when it is False.
\<close>

theorem exhaustive_conditional:
  assumes "Eval expr ctx s = (cVal, s1)" and "Eval truthy ctx s1 = (tVal, s2)"
    and "Eval falsy ctx s2 = (fVal, s3)"
  shows "Eval (EvalExhaustiveConditional i expr truthy falsy) ctx s =
           (if Type cVal \<noteq> BoolType then ValOrErr cVal ''no such overload''
            else if cVal = BoolVal True then tVal else fVal, s3)
       \<and> (Type cVal \<noteq> BoolType \<longrightarrow>
            IsError (fst (Eval (EvalExhaustiveConditional i expr truthy falsy) ctx s)))"
  using assms by (cases cVal; simp add: ValOrErr_IsError)

theorem exhaustive_conditional_witness:
  "Eval (EvalExhaustiveConditional 0 (EvalConst 1 (BoolVal False))
           (EvalWatch (EvalConst 2 (IntVal 10)) traceObserver)
           (EvalWatch (EvalConst 3 (IntVal 20)) traceObserver))
        EmptyActivation \<lparr>varActivationPool = [], observed = []\<rparr>
     = (IntVal 20,
        \<lparr>varActivationPool = [], observed = [(2, IntVal 10), (3, IntVal 20)]\<rparr>)"
proof -
  have c: "Eval (EvalConst 1 (BoolVal False)) EmptyActivation
             \<lparr>varActivationPool = [], observed = []\<rparr>
           = (BoolVal False, \<lparr>varActivationPool = [], observed = []\<rparr>)"
    by simp
  have t: "Eval (EvalWatch (EvalConst 2 (IntVal 10)) traceObserver) EmptyActivation
             \<lparr>varActivationPool = [], observed = []\<rparr>
           = (IntVal 10, \<lparr>varActivationPool = [], observed = [(2, IntVal 10)]\<rparr>)"
    by (simp add: traceObserver_def)
  have f: "Eval (EvalWatch (EvalConst 3 (IntVal 20)) traceObserver) EmptyActivation
             \<lparr>varActivationPool = [], observed = [(2, IntVal 10)]\<rparr>
           = (IntVal 20,
              \<lparr>varActivationPool = [], observed = [(2, IntVal 10), (3, IntVal 20)]\<rparr>)"
    by (simp add: traceObserver_def)
  show ?thesis
    using exhaustive_conditional [OF c t f, of 0] by simp
qed

subsection \<open>The tracing wrapper\<close>

text \<open>
  Claim C9. For every activation, evaluating a watch evaluates the wrapped node, applies
  the observer exactly once, to the id of the wrapped node and the value computed, in the
  state the wrapped evaluation left, and returns that value unchanged. The value is
  arbitrary: an Error or an Unknown is observed and returned like any other. With the
  observer that keeps a log, the watch adds exactly one entry to the log that the wrapped
  evaluation leaves.
\<close>

theorem watch_observes_once:
  assumes "Eval inst ctx s = (v, s1)"
  shows "Eval (EvalWatch inst observer) ctx s =
           (v, s1\<lparr>observed := observer (ID inst) v (observed s1)\<rparr>)
       \<and> fst (Eval (EvalWatch inst' traceObserver) ctx' s') = fst (Eval inst' ctx' s')
       \<and> observed (snd (Eval (EvalWatch inst' traceObserver) ctx' s'))
           = observed (snd (Eval inst' ctx' s')) @ [(ID inst', fst (Eval inst' ctx' s'))]"
  using assms by (simp add: traceObserver_def split: prod.splits)

theorem watch_observes_once_witness:
  "Eval (EvalWatch (EvalIdent 7 ''x'') traceObserver) EmptyActivation
        \<lparr>varActivationPool = [], observed = [(1, ErrVal ''boom'')]\<rparr>
     = (UnknownVal [7],
        \<lparr>varActivationPool = [], observed = [(1, ErrVal ''boom''), (7, UnknownVal [7])]\<rparr>)"
proof -
  have i: "Eval (EvalIdent 7 ''x'') EmptyActivation
             \<lparr>varActivationPool = [], observed = [(1, ErrVal ''boom'')]\<rparr>
           = (UnknownVal [7], \<lparr>varActivationPool = [], observed = [(1, ErrVal ''boom'')]\<rparr>)"
    by simp
  show ?thesis
    using watch_observes_once [OF i, of traceObserver] by (simp add: traceObserver_def)
qed

subsection \<open>The set-membership rewrite\<close>

lemma setMembershipLoop_Some:
  "setMembershipLoop xs (Some t) vset =
     (if \<forall>x \<in> set xs. IsPrimitiveType x \<and> TypeName (Type x) = TypeName t
      then Some (Some t, \<lambda>v. if v \<in> set xs then Some (BoolVal True) else vset v)
      else None)"
proof (induction xs arbitrary: vset)
  case Nil
  then show ?case by simp
next
  case (Cons x xs)
  show ?case
  proof (cases "IsPrimitiveType x \<and> TypeName (Type x) = TypeName t")
    case True
    have eq: "(\<lambda>v. if v \<in> set xs then Some (BoolVal True) else (vset(x \<mapsto> BoolVal True)) v)
        = (\<lambda>v. if v \<in> set (x # xs) then Some (BoolVal True) else vset v)"
      by (rule ext) simp
    have "setMembershipLoop (x # xs) (Some t) vset
        = setMembershipLoop xs (Some t) (vset(x \<mapsto> BoolVal True))"
      using True by simp
    also have "\<dots> =
       (if \<forall>y \<in> set xs. IsPrimitiveType y \<and> TypeName (Type y) = TypeName t
        then Some (Some t,
               \<lambda>v. if v \<in> set xs then Some (BoolVal True) else (vset(x \<mapsto> BoolVal True)) v)
        else None)"
      by (rule Cons.IH)
    also have "\<dots> =
       (if \<forall>y \<in> set (x # xs). IsPrimitiveType y \<and> TypeName (Type y) = TypeName t
        then Some (Some t, \<lambda>v. if v \<in> set (x # xs) then Some (BoolVal True) else vset v)
        else None)"
      unfolding eq using True by simp
    finally show ?thesis .
  next
    case False
    then show ?thesis by (cases "IsPrimitiveType x") simp_all
  qed
qed

lemma setMembershipLoop_None:
  "setMembershipLoop (x # xs) None vset =
     (if \<forall>y \<in> set (x # xs). IsPrimitiveType y \<and> TypeName (Type y) = TypeName (Type x)
      then Some (Some (Type x), \<lambda>v. if v \<in> set (x # xs) then Some (BoolVal True) else vset v)
      else None)"
proof (cases "IsPrimitiveType x")
  case True
  have eq: "(\<lambda>v. if v \<in> set xs then Some (BoolVal True) else (vset(x \<mapsto> BoolVal True)) v)
      = (\<lambda>v. if v \<in> set (x # xs) then Some (BoolVal True) else vset v)"
    by (rule ext) simp
  have "setMembershipLoop (x # xs) None vset
      = setMembershipLoop xs (Some (Type x)) (vset(x \<mapsto> BoolVal True))"
    using True by simp
  also have "\<dots> =
     (if \<forall>y \<in> set xs. IsPrimitiveType y \<and> TypeName (Type y) = TypeName (Type x)
      then Some (Some (Type x),
             \<lambda>v. if v \<in> set xs then Some (BoolVal True) else (vset(x \<mapsto> BoolVal True)) v)
      else None)"
    by (rule setMembershipLoop_Some)
  also have "\<dots> =
     (if \<forall>y \<in> set (x # xs). IsPrimitiveType y \<and> TypeName (Type y) = TypeName (Type x)
      then Some (Some (Type x), \<lambda>v. if v \<in> set (x # xs) then Some (BoolVal True) else vset v)
      else None)"
    unfolding eq using True by simp
  finally show ?thesis .
next
  case False
  then show ?thesis by simp
qed

lemma decOptimize_inlist_empty:
  "decOptimize (EvalBinary cid InList lhs (EvalConst lid (ListVal [])) impl) s =
     (Decorated (EvalConst cid (BoolVal False)) None, s)"
  by (simp add: maybeOptimizeSetMembership_def)

lemma decOptimize_inlist_nonempty:
  assumes "xs \<noteq> []"
  shows "decOptimize (EvalBinary cid InList lhs (EvalConst lid (ListVal xs)) impl) s =
     (case setMembershipLoop xs None Map.empty of
        None \<Rightarrow> Decorated (EvalBinary cid InList lhs (EvalConst lid (ListVal xs)) impl) None
      | Some (None, valueSet) \<Rightarrow> Panic ''nil pointer dereference''
      | Some (Some typ, valueSet) \<Rightarrow>
          Decorated (EvalSetMembership
            (EvalBinary cid InList lhs (EvalConst lid (ListVal xs)) impl)
            lhs (TypeName typ) valueSet) None, s)"
  using assms by (simp add: maybeOptimizeSetMembership_def)

lemma setMembershipLoop_start:
  assumes "xs \<noteq> []"
  shows "setMembershipLoop xs None Map.empty =
       (if \<forall>z \<in> set xs. IsPrimitiveType z \<and> TypeName (Type z) = TypeName (Type (hd xs))
        then Some (Some (Type (hd xs)), \<lambda>v. if v \<in> set xs then Some (BoolVal True) else None)
        else None)"
proof -
  from assms obtain y ys where xs: "xs = y # ys" by (cases xs) auto
  show ?thesis unfolding xs list.sel by (rule setMembershipLoop_None)
qed

text \<open>
  Claim C2. For every Binary node tagged with the list-membership overload whose right
  operand is a constant list: an empty list makes the optimizer replace the node by the
  constant False; a non-empty list all of whose elements are primitive and share one type
  name makes it replace the node by a SetMembership node that wraps the node, takes the
  left operand as argument, remembers that type name and maps exactly the elements of the
  list to True; in every other case (an element that is not primitive, or two elements
  with different type names) the node is returned unchanged.
\<close>

theorem set_membership_rewrite:
  "decOptimize (EvalBinary cid InList lhs (EvalConst lid (ListVal [])) impl) s =
     (Decorated (EvalConst cid (BoolVal False)) None, s)
   \<and> (xs \<noteq> [] \<and> (\<forall>x \<in> set xs. IsPrimitiveType x)
        \<and> (\<forall>x \<in> set xs. TypeName (Type x) = TypeName (Type (hd xs))) \<longrightarrow>
      decOptimize (EvalBinary cid InList lhs (EvalConst lid (ListVal xs)) impl) s =
        (Decorated (EvalSetMembership
           (EvalBinary cid InList lhs (EvalConst lid (ListVal xs)) impl)
           lhs (TypeName (Type (hd xs)))
           (\<lambda>v. if v \<in> set xs then Some (BoolVal True) else None)) None, s))
   \<and> (xs \<noteq> [] \<and> \<not> ((\<forall>x \<in> set xs. IsPrimitiveType x)
        \<and> (\<forall>x \<in> set xs. TypeName (Type x) = TypeName (Type (hd xs)))) \<longrightarrow>
      decOptimize (EvalBinary cid InList lhs (EvalConst lid (ListVal xs)) impl) s =
        (Decorated (EvalBinary cid InList lhs (EvalConst lid (ListVal xs)) impl) None, s))"
proof (intro conjI impI)
  show "decOptimize (EvalBinary cid InList lhs (EvalConst lid (ListVal [])) impl) s =
     (Decorated (EvalConst cid (BoolVal False)) None, s)"
    by (rule decOptimize_inlist_empty)
next
  assume a: "xs \<noteq> [] \<and> (\<forall>x \<in> set xs. IsPrimitiveType x)
        \<and> (\<forall>x \<in> set xs. TypeName (Type x) = TypeName (Type (hd xs)))"
  then have ne: "xs \<noteq> []"
    and al: "\<forall>z \<in> set xs. IsPrimitiveType z \<and> TypeName (Type z) = TypeName (Type (hd xs))"
    by blast+
  have "setMembershipLoop xs None Map.empty =
      Some (Some (Type (hd xs)), \<lambda>v. if v \<in> set xs then Some (BoolVal True) else None)"
    by (simp only: setMembershipLoop_start [OF ne] if_P [OF al])
  then show "decOptimize (EvalBinary cid InList lhs (EvalConst lid (ListVal xs)) impl) s =
        (Decorated (EvalSetMembership
           (EvalBinary cid InList lhs (EvalConst lid (ListVal xs)) impl)
           lhs (TypeName (Type (hd xs)))
           (\<lambda>v. if v \<in> set xs then Some (BoolVal True) else None)) None, s)"
    by (simp only: decOptimize_inlist_nonempty [OF ne] option.case prod.case)
next
  assume a: "xs \<noteq> [] \<and> \<not> ((\<forall>x \<in> set xs. IsPrimitiveType x)
        \<and> (\<forall>x \<in> set xs. TypeName (Type x) = TypeName (Type (hd xs))))"
  then have ne: "xs \<noteq> []"
    and nal: "\<not> (\<forall>z \<in> set xs. IsPrimitiveType z \<and> TypeName (Type z) = TypeName (Type (hd xs)))"
    by blast+
  have "setMembershipLoop xs None Map.empty = None"
    by (simp only: setMembershipLoop_start [OF ne] if_not_P [OF nal])
  then show "decOptimize (EvalBinary cid InList lhs (EvalConst lid (ListVal xs)) impl) s =
        (Decorated (EvalBinary cid InList lhs (EvalConst lid (ListVal xs)) impl) None, s)"
    by (simp only: decOptimize_inlist_nonempty [OF ne] option.case)
qed


theorem set_membership_rewrite_witness:
  "decOptimize (EvalBinary 1 InList (EvalIdent 2 ''x'')
       (EvalConst 3 (ListVal [IntVal 1, IntVal 2, IntVal 3])) inListImpl)
     \<lparr>varActivationPool = [], observed = ()\<rparr>
   = (Decorated (EvalSetMembership
        (EvalBinary 1 InList (EvalIdent 2 ''x'')
           (EvalConst 3 (ListVal [IntVal 1, IntVal 2, IntVal 3])) inListImpl)
        (EvalIdent 2 ''x'') ''int''
        (\<lambda>v. if v \<in> set [IntVal 1, IntVal 2, IntVal 3] then Some (BoolVal True) else None))
      None, \<lparr>varActivationPool = [], observed = ()\<rparr>)
   \<and> decOptimize (EvalBinary 1 InList (EvalIdent 2 ''x'')
       (EvalConst 3 (ListVal [IntVal 1, StringVal ''a''])) inListImpl)
     \<lparr>varActivationPool = [], observed = ()\<rparr>
   = (Decorated (EvalBinary 1 InList (EvalIdent 2 ''x'')
       (EvalConst 3 (ListVal [IntVal 1, StringVal ''a''])) inListImpl) None,
      \<lparr>varActivationPool = [], observed = ()\<rparr>)"
  using set_membership_rewrite [of 1 "EvalIdent 2 ''x''" 3 inListImpl
      "\<lparr>varActivationPool = [], observed = ()\<rparr>" "[IntVal 1, IntVal 2, IntVal 3]"]
    set_membership_rewrite [of 1 "EvalIdent 2 ''x''" 3 inListImpl
      "\<lparr>varActivationPool = [], observed = ()\<rparr>" "[IntVal 1, StringVal ''a'']"]
  by (simp add: IsPrimitiveType_def)

subsection \<open>Evaluation of a SetMembership node\<close>



subsection \<open>Folding of list and map literals\<close>

lemma EvalElems_const:
  "\<forall>e \<in> set es. isConst e \<Longrightarrow> \<exists>vs. \<forall>ctx s. EvalElems es ctx s = (vs, s)"
proof (induction es)
  case Nil
  then show ?case by simp
next
  case (Cons e es)
  then obtain i v where e: "e = EvalConst i v" by (cases e) auto
  from Cons obtain vs where "\<forall>ctx s. EvalElems es ctx s = (vs, s)" by auto
  then have "\<forall>ctx s. EvalElems (e # es) ctx s = (v # vs, s)" by (simp add: e)
  then show ?case by blast
qed

lemma EvalEntries_const:
  "\<forall>e \<in> set ks. isConst e \<Longrightarrow> \<forall>e \<in> set vs. isConst e \<Longrightarrow>
     \<exists>kvs. \<forall>ctx s. EvalEntries ks vs ctx s = (kvs, s)"
proof (induction ks arbitrary: vs)
  case Nil
  then show ?case by simp
next
  case (Cons k ks)
  show ?case
  proof (cases vs)
    case Nil
    then show ?thesis by simp
  next
    case (Cons v vs')
    from Cons.prems obtain i x where k: "k = EvalConst i x" by (cases k) auto
    from Cons.prems Cons obtain j y where v: "v = EvalConst j y" by (cases v) auto
    from Cons.prems Cons have "\<forall>e \<in> set ks. isConst e" "\<forall>e \<in> set vs'. isConst e"
      by simp_all
    from Cons.IH [OF this] obtain kvs where "\<forall>ctx s. EvalEntries ks vs' ctx s = (kvs, s)"
      by auto
    then have "\<forall>ctx s. EvalEntries (k # ks) vs ctx s = ((x, y) # kvs, s)"
      by (simp add: k v Cons)
    then show ?thesis by blast
  qed
qed

lemma mapLiteralLoop_same_length:
  "length keys = length vals \<Longrightarrow>
     mapLiteralLoop i keys vals =
       (if (\<forall>k \<in> set keys. isConst k) \<and> (\<forall>v \<in> set vals. isConst v) then None
        else Some (Decorated i None))"
  by (induction keys vals rule: list_induct2) auto

text \<open>
  Claim C4. A List node all of whose elements are constants is replaced by one constant,
  whose value is the value of the List evaluated against the empty activation; the
  evaluation leaves the state as it is, and for every activation and state the constant
  evaluates to what the List evaluates to. A List with an element that is not a constant
  is returned unchanged. The same holds for a Map node (keys and values index-aligned, of
  the same length) when every key and every value is a constant; otherwise the Map node
  is returned unchanged.
\<close>

theorem literal_folding:
  "((\<forall>e \<in> set elems. isConst e) \<longrightarrow>
      decOptimize (EvalList lid elems) s =
        (Decorated (EvalConst lid (fst (Eval (EvalList lid elems) EmptyActivation s))) None, s)
      \<and> (\<forall>ctx s'. Eval (EvalConst lid (fst (Eval (EvalList lid elems) EmptyActivation s))) ctx s'
            = Eval (EvalList lid elems) ctx s'))
   \<and> (\<not> (\<forall>e \<in> set elems. isConst e) \<longrightarrow>
      decOptimize (EvalList lid elems) s = (Decorated (EvalList lid elems) None, s))
   \<and> (length keys = length vals \<longrightarrow>
       ((\<forall>k \<in> set keys. isConst k) \<and> (\<forall>v \<in> set vals. isConst v) \<longrightarrow>
          decOptimize (EvalMap mid keys vals) s =
            (Decorated (EvalConst mid (fst (Eval (EvalMap mid keys vals) EmptyActivation s))) None, s)
          \<and> (\<forall>ctx s'. Eval (EvalConst mid (fst (Eval (EvalMap mid keys vals) EmptyActivation s))) ctx s'
                = Eval (EvalMap mid keys vals) ctx s'))
       \<and> (\<not> ((\<forall>k \<in> set keys. isConst k) \<and> (\<forall>v \<in> set vals. isConst v)) \<longrightarrow>
          decOptimize (EvalMap mid keys vals) s = (Decorated (EvalMap mid keys vals) None, s)))"
proof -
  have l1: "decOptimize (EvalList lid elems) s =
        (Decorated (EvalConst lid (fst (Eval (EvalList lid elems) EmptyActivation s))) None, s)"
    "Eval (EvalConst lid (fst (Eval (EvalList lid elems) EmptyActivation s))) ctx s'
            = Eval (EvalList lid elems) ctx s'"
    if "\<forall>e \<in> set elems. isConst e" for ctx s'
  proof -
    from EvalElems_const [OF that] obtain vs where "\<And>ctx s. EvalElems elems ctx s = (vs, s)"
      by auto
    then show "decOptimize (EvalList lid elems) s =
        (Decorated (EvalConst lid (fst (Eval (EvalList lid elems) EmptyActivation s))) None, s)"
      "Eval (EvalConst lid (fst (Eval (EvalList lid elems) EmptyActivation s))) ctx s'
            = Eval (EvalList lid elems) ctx s'"
      using that by (simp_all add: maybeBuildListLiteral_def)
  qed
  have l2: "decOptimize (EvalList lid elems) s = (Decorated (EvalList lid elems) None, s)"
    if "\<not> (\<forall>e \<in> set elems. isConst e)"
    using that by (auto simp: maybeBuildListLiteral_def)
  have m1: "decOptimize (EvalMap mid keys vals) s =
            (Decorated (EvalConst mid (fst (Eval (EvalMap mid keys vals) EmptyActivation s))) None, s)"
     "Eval (EvalConst mid (fst (Eval (EvalMap mid keys vals) EmptyActivation s))) ctx s'
                = Eval (EvalMap mid keys vals) ctx s'"
    if "length keys = length vals" "\<forall>k \<in> set keys. isConst k" "\<forall>v \<in> set vals. isConst v"
    for ctx s'
  proof -
    from EvalEntries_const [OF that(2,3)] obtain kvs
      where "\<And>ctx s. EvalEntries keys vals ctx s = (kvs, s)"
      by auto
    then show "decOptimize (EvalMap mid keys vals) s =
        (Decorated (EvalConst mid (fst (Eval (EvalMap mid keys vals) EmptyActivation s))) None, s)"
      "Eval (EvalConst mid (fst (Eval (EvalMap mid keys vals) EmptyActivation s))) ctx s'
            = Eval (EvalMap mid keys vals) ctx s'"
      using that by (simp_all add: maybeBuildMapLiteral_def mapLiteralLoop_same_length)
  qed
  have m2: "decOptimize (EvalMap mid keys vals) s = (Decorated (EvalMap mid keys vals) None, s)"
    if "length keys = length vals" "\<not> ((\<forall>k \<in> set keys. isConst k) \<and> (\<forall>v \<in> set vals. isConst v))"
    using that by (auto simp: maybeBuildMapLiteral_def mapLiteralLoop_same_length)
  show ?thesis
  proof (intro conjI impI allI)
    assume a: "\<forall>e \<in> set elems. isConst e"
    show "decOptimize (EvalList lid elems) s =
        (Decorated (EvalConst lid (fst (Eval (EvalList lid elems) EmptyActivation s))) None, s)"
      by (rule l1(1) [OF a])
    show "Eval (EvalConst lid (fst (Eval (EvalList lid elems) EmptyActivation s))) ctx s'
            = Eval (EvalList lid elems) ctx s'" for ctx s'
      by (rule l1(2) [OF a])
  next
    assume "\<not> (\<forall>e \<in> set elems. isConst e)"
    then show "decOptimize (EvalList lid elems) s = (Decorated (EvalList lid elems) None, s)"
      by (rule l2)
  next
    assume a: "length keys = length vals"
      "(\<forall>k \<in> set keys. isConst k) \<and> (\<forall>v \<in> set vals. isConst v)"
    show "decOptimize (EvalMap mid keys vals) s =
        (Decorated (EvalConst mid (fst (Eval (EvalMap mid keys vals) EmptyActivation s))) None, s)"
      using a by (intro m1(1)) simp_all
    show "Eval (EvalConst mid (fst (Eval (EvalMap mid keys vals) EmptyActivation s))) ctx s'
            = Eval (EvalMap mid keys vals) ctx s'" for ctx s'
      using a by (intro m1(2)) simp_all
  next
    assume "length keys = length vals"
      "\<not> ((\<forall>k \<in> set keys. isConst k) \<and> (\<forall>v \<in> set vals. isConst v))"
    then show "decOptimize (EvalMap mid keys vals) s = (Decorated (EvalMap mid keys vals) None, s)"
      by (rule m2)
  qed
qed


theorem literal_folding_witness:
  "decOptimize (EvalList 4 [EvalConst 1 (IntVal 1), EvalConst 2 (IntVal 2), EvalConst 3 (IntVal 3)])
     \<lparr>varActivationPool = [], observed = ()\<rparr>
   = (Decorated (EvalConst 4 (ListVal [IntVal 1, IntVal 2, IntVal 3])) None,
      \<lparr>varActivationPool = [], observed = ()\<rparr>)
   \<and> decOptimize (EvalMap 4 [EvalConst 1 (StringVal ''k'')] [EvalIdent 2 ''x''])
     \<lparr>varActivationPool = [], observed = ()\<rparr>
   = (Decorated (EvalMap 4 [EvalConst 1 (StringVal ''k'')] [EvalIdent 2 ''x'']) None,
      \<lparr>varActivationPool = [], observed = ()\<rparr>)"
  using literal_folding [of "[EvalConst 1 (IntVal 1), EvalConst 2 (IntVal 2), EvalConst 3 (IntVal 3)]"
      4 "\<lparr>varActivationPool = [], observed = ()\<rparr>"
      "[EvalConst 1 (StringVal ''k'')]" "[EvalIdent 2 ''x'']" 4]
  by simp

subsection \<open>What the decorators return\<close>

lemma mapLiteralLoop_cases:
  "mapLiteralLoop i keys vals = Some r \<Longrightarrow> r = Decorated i None \<or> (\<exists>m. r = Panic m)"
  by (induction i keys vals rule: mapLiteralLoop.induct) (auto split: if_splits)

lemma decOptimize_result:
  assumes "fst (decOptimize i s) = Decorated n e"
  shows "e = None \<and> (n = i \<or> (\<exists>v. n = EvalConst (ID i) v)
           \<or> (\<exists>arg tn vs. n = EvalSetMembership i arg tn vs))"
proof (cases i)
  case (EvalList lid elems)
  then show ?thesis using assms
    by (auto simp: maybeBuildListLiteral_def split: if_splits prod.splits)
next
  case (EvalMap mid keys vals)
  then show ?thesis using assms
    by (auto simp: maybeBuildMapLiteral_def split: option.splits prod.splits
        dest: mapLiteralLoop_cases)
next
  case (EvalBinary cid ov lhs rhs impl)
  then show ?thesis using assms
    by (auto simp: maybeOptimizeSetMembership_def
        split: if_splits option.splits prod.splits Interpretable.splits)
qed (use assms in auto)

lemma decOptimize_returns:
  assumes "wellFormed i"
  shows "\<exists>n. fst (decOptimize i s) = Decorated n None"
proof (cases i)
  case (EvalList lid elems)
  then show ?thesis
    by (auto simp: maybeBuildListLiteral_def split: prod.splits)
next
  case (EvalMap mid keys vals)
  then have "length keys = length vals" using assms by (simp add: wellFormed_def)
  then show ?thesis using EvalMap
    by (auto simp: maybeBuildMapLiteral_def mapLiteralLoop_same_length split: prod.splits)
next
  case (EvalBinary cid ov lhs rhs impl)
  show ?thesis
  proof (cases "ov = InList")
    case False
    then show ?thesis using EvalBinary by simp
  next
    case True
    show ?thesis
    proof (cases rhs)
      case (EvalConst lid lval)
      then obtain xs where l: "asLister lval = Some xs"
        using assms EvalBinary True by (auto simp: wellFormed_def)
      then have lv: "lval = ListVal xs" by (cases lval) auto
      show ?thesis
      proof (cases "xs = []")
        case True
        then show ?thesis using EvalBinary EvalConst lv \<open>ov = InList\<close>
          by (simp add: maybeOptimizeSetMembership_def)
      next
        case False
        show ?thesis
          using EvalBinary EvalConst lv \<open>ov = InList\<close>
          by (simp only: decOptimize_inlist_nonempty [OF False] setMembershipLoop_start [OF False])
             (simp split: if_splits)
      qed
    qed (use EvalBinary True in \<open>simp_all add: maybeOptimizeSetMembership_def\<close>)
  qed
qed simp_all

text \<open>
  Claim C7. For every node, the node that the tracing decorator, the exhaustive-evaluation
  decorator or the optimizer returns has the id of the node it was given. The two
  wrappers, the watch and the SetMembership node, take their id from the wrapped node.
\<close>

theorem decorators_preserve_id:
  "(\<forall>n e. decObserveEval observer i = Decorated n e \<longrightarrow> ID n = ID i)
   \<and> (\<forall>n e. decDisableShortcircuits i = Decorated n e \<longrightarrow> ID n = ID i)
   \<and> (\<forall>n e. fst (decOptimize i s) = Decorated n e \<longrightarrow> ID n = ID i)
   \<and> ID (EvalWatch inst observer) = ID inst
   \<and> ID (EvalSetMembership inst arg argTypeName valueSet) = ID inst"
proof -
  have a: "\<forall>n e. decObserveEval observer i = Decorated n e \<longrightarrow> ID n = ID i"
    by (auto simp: decObserveEval_def)
  have b: "\<forall>n e. decDisableShortcircuits i = Decorated n e \<longrightarrow> ID n = ID i"
    by (cases i) auto
  have c: "\<forall>n e. fst (decOptimize i s) = Decorated n e \<longrightarrow> ID n = ID i"
    using decOptimize_result [of i s] by auto
  show ?thesis using a b c by simp
qed

theorem decorators_preserve_id_witness:
  "ID (EvalWatch (EvalOr 7 (EvalIdent 1 ''a'') (EvalIdent 2 ''b'')) traceObserver) = 7
   \<and> ID (EvalExhaustiveOr 7 (EvalIdent 1 ''a'') (EvalIdent 2 ''b'') :: unit Interpretable) = 7
   \<and> ID (EvalConst 4 (ListVal [IntVal 1]) :: unit Interpretable) = 4"
proof -
  have a: "decObserveEval traceObserver (EvalOr 7 (EvalIdent 1 ''a'') (EvalIdent 2 ''b''))
      = Decorated (EvalWatch (EvalOr 7 (EvalIdent 1 ''a'') (EvalIdent 2 ''b'')) traceObserver) None"
    by (simp add: decObserveEval_def)
  have b: "decDisableShortcircuits (EvalOr 7 (EvalIdent 1 ''a'') (EvalIdent 2 ''b'') :: unit Interpretable)
      = Decorated (EvalExhaustiveOr 7 (EvalIdent 1 ''a'') (EvalIdent 2 ''b'')) None"
    by simp
  have c: "fst (decOptimize (EvalList 4 [EvalConst 1 (IntVal 1)])
             \<lparr>varActivationPool = [], observed = ()\<rparr>)
      = Decorated (EvalConst 4 (ListVal [IntVal 1])) None"
    by (simp add: maybeBuildListLiteral_def)
  show ?thesis
    using decorators_preserve_id [of traceObserver
        "EvalOr 7 (EvalIdent 1 ''a'') (EvalIdent 2 ''b'')"] a
      decorators_preserve_id [of _ "EvalOr 7 (EvalIdent 1 ''a'') (EvalIdent 2 ''b'') :: unit Interpretable"] b
      decorators_preserve_id [of _ "EvalList 4 [EvalConst 1 (IntVal 1)]"
        "\<lparr>varActivationPool = [], observed = ()\<rparr>"] c
    by simp
qed

text \<open>
  Claim C10. For every node the tracing decorator and the exhaustive-evaluation decorator
  return a node and the nil error. The optimizer never returns an error: whenever it
  returns, the error is nil, and it returns on every node of the data model.
\<close>

theorem decorators_return_nil_error:
  "decObserveEval observer i = Decorated (EvalWatch i observer) None
   \<and> (\<exists>n. decDisableShortcircuits i = Decorated n None)
   \<and> (\<forall>n e. fst (decOptimize i s) = Decorated n e \<longrightarrow> e = None)
   \<and> (wellFormed i \<longrightarrow> (\<exists>n. fst (decOptimize i s) = Decorated n None))"
proof -
  have b: "\<exists>n. decDisableShortcircuits i = Decorated n None"
    by (cases i) auto
  have c: "\<forall>n e. fst (decOptimize i s) = Decorated n e \<longrightarrow> e = None"
    using decOptimize_result [of i s] by auto
  show ?thesis using b c decOptimize_returns [of i s]
    by (simp add: decObserveEval_def)
qed

theorem decorators_return_nil_error_witness:
  "wellFormed (EvalBinary 1 InList (EvalIdent 2 ''x'')
       (EvalConst 3 (ListVal [IntVal 1, NullVal])) inListImpl :: unit Interpretable)
   \<and> (\<exists>n. fst (decOptimize (EvalBinary 1 InList (EvalIdent 2 ''x'')
       (EvalConst 3 (ListVal [IntVal 1, NullVal])) inListImpl)
       \<lparr>varActivationPool = [], observed = ()\<rparr>) = Decorated n None)"
proof -
  have w: "wellFormed (EvalBinary 1 InList (EvalIdent 2 ''x'')
       (EvalConst 3 (ListVal [IntVal 1, NullVal])) inListImpl :: unit Interpretable)"
    by (simp add: wellFormed_def)
  show ?thesis
    using w decorators_return_nil_error [of _ "EvalBinary 1 InList (EvalIdent 2 ''x'')
       (EvalConst 3 (ListVal [IntVal 1, NullVal])) inListImpl :: unit Interpretable"
       "\<lparr>varActivationPool = [], observed = ()\<rparr>"]
    by blast
qed


subsection \<open>The pool does not influence an evaluation\<close>

lemma agreeE:
  assumes "agree r r'"
  obtains a s t where "r = (a, s)" and "r' = (a, t)" and "sameObserved s t"
  using assms by (cases r; cases r') (auto simp: agree_def)

lemma sameObserved_poolGet: "sameObserved s t \<Longrightarrow> sameObserved (snd (poolGet s)) (snd (poolGet t))"
  by (auto simp: sameObserved_def poolGet_def split: list.splits)

lemma sameObserved_poolPut: "sameObserved s t \<Longrightarrow> sameObserved (poolPut a s) (poolPut b t)"
  by (auto simp: sameObserved_def poolPut_def)

lemma set_all [simp]: "setVal v (setName n (setParent p x)) = VarActivation (Some p) n (Some v)"
  by (cases x) simp

lemma set_name_parent: "setName n (setParent p x) = VarActivation (Some p) n (val x)"
  by (cases x) simp

lemma setVal_eq: "parent a = parent b \<Longrightarrow> name a = name b \<Longrightarrow> setVal v a = setVal v b"
  by (cases a; cases b) simp

text \<open>
  The value and the observed effects of an evaluation do not depend on the contents of the
  pool: two runs from states with the same observed part return the same value and leave
  the same observed part. For the loops of the folds the two runs may start from iteration
  activations whose value slots differ, since the slot is assigned before it is read.
\<close>

lemma pool_independent:
  "sameObserved s t \<Longrightarrow> agree (Eval (n :: 'st Interpretable) ctx s) (Eval n ctx t)"
  "sameObserved s2 t2 \<Longrightarrow> agree (EvalElems (es :: 'st Interpretable list) ctx2 s2) (EvalElems es ctx2 t2)"
  "sameObserved s3 t3 \<Longrightarrow> agree (EvalEntries (ks :: 'st Interpretable list) vs ctx3 s3) (EvalEntries ks vs ctx3 t3)"
  "sameObserved s4 t4 \<Longrightarrow> parent it4' = parent it4 \<Longrightarrow> name it4' = name it4 \<Longrightarrow>
     fst (foldLoop (c4 :: 'st Interpretable) st4 xs4 a4 it4 s4) = fst (foldLoop c4 st4 xs4 a4 it4' t4)
     \<and> sameObserved (snd (snd (foldLoop c4 st4 xs4 a4 it4 s4))) (snd (snd (foldLoop c4 st4 xs4 a4 it4' t4)))"
  "sameObserved s5 t5 \<Longrightarrow> parent it5' = parent it5 \<Longrightarrow> name it5' = name it5 \<Longrightarrow>
     fst (exhaustiveFoldLoop (c5 :: 'st Interpretable) st5 xs5 a5 it5 s5) = fst (exhaustiveFoldLoop c5 st5 xs5 a5 it5' t5)
     \<and> sameObserved (snd (snd (exhaustiveFoldLoop c5 st5 xs5 a5 it5 s5)))
          (snd (snd (exhaustiveFoldLoop c5 st5 xs5 a5 it5' t5)))"
proof (induction n ctx s and es ctx2 s2 and ks vs ctx3 s3 and c4 st4 xs4 a4 it4 s4
    and c5 st5 xs5 a5 it5 s5
    arbitrary: t and t2 and t3 and t4 it4' and t5 it5'
    rule: Eval_EvalElems_EvalEntries_foldLoop_exhaustiveFoldLoop.induct)
  case (1 i v ctx s)
  then show ?case by (simp add: agree_def)
next
  case (2 i n ctx s)
  then show ?case by (simp add: agree_def split: option.splits)
next
  case (3 i ov lhs rhs impl ctx s)
  from "3.IH"(1) [OF "3.prems"] obtain lv s1 t1
    where l: "Eval lhs ctx s = (lv, s1)" "Eval lhs ctx t = (lv, t1)" "sameObserved s1 t1"
    by (rule agreeE)
  from "3.IH"(2) [OF l(1) [symmetric] l(3)] obtain rv s2 t2
    where r: "Eval rhs ctx s1 = (rv, s2)" "Eval rhs ctx t1 = (rv, t2)" "sameObserved s2 t2"
    by (rule agreeE)
  show ?case using l r by (simp add: agree_def)
next
  case (4 i lhs rhs ctx s)
  from "4.IH"(1) [OF "4.prems"] obtain lv s1 t1
    where l: "Eval lhs ctx s = (lv, s1)" "Eval lhs ctx t = (lv, t1)" "sameObserved s1 t1"
    by (rule agreeE)
  show ?case
  proof (cases "asBool lv = Some True")
    case True
    then show ?thesis using l by (simp add: agree_def)
  next
    case False
    from "4.IH"(2) [OF l(1) [symmetric] False l(3)] obtain rv s2 t2
      where r: "Eval rhs ctx s1 = (rv, s2)" "Eval rhs ctx t1 = (rv, t2)" "sameObserved s2 t2"
      by (rule agreeE)
    show ?thesis using l r False by (simp add: agree_def)
  qed
next
  case (5 i lhs rhs ctx s)
  from "5.IH"(1) [OF "5.prems"] obtain lv s1 t1
    where l: "Eval lhs ctx s = (lv, s1)" "Eval lhs ctx t = (lv, t1)" "sameObserved s1 t1"
    by (rule agreeE)
  show ?case
  proof (cases "asBool lv = Some False")
    case True
    then show ?thesis using l by (simp add: agree_def)
  next
    case False
    from "5.IH"(2) [OF l(1) [symmetric] False l(3)] obtain rv s2 t2
      where r: "Eval rhs ctx s1 = (rv, s2)" "Eval rhs ctx t1 = (rv, t2)" "sameObserved s2 t2"
      by (rule agreeE)
    show ?thesis using l r False by (simp add: agree_def)
  qed
next
  case (6 i expr truthy falsy ctx s)
  from "6.IH"(1) [OF "6.prems"] obtain cv s1 t1
    where c: "Eval expr ctx s = (cv, s1)" "Eval expr ctx t = (cv, t1)" "sameObserved s1 t1"
    by (rule agreeE)
  show ?case
  proof (cases "asBool cv")
    case None
    then show ?thesis using c by (simp add: agree_def)
  next
    case (Some b)
    show ?thesis
    proof (cases b)
      case True
      from "6.IH"(2) [OF c(1) [symmetric] Some True c(3)]
      show ?thesis using c Some True by simp
    next
      case False
      from "6.IH"(3) [OF c(1) [symmetric] Some False c(3)]
      show ?thesis using c Some False by simp
    qed
  qed
next
  case (7 i elems ctx s)
  from "7.IH" [OF "7.prems"] show ?case
    by (auto simp: agree_def split: prod.splits)
next
  case (8 i keys vals ctx s)
  from "8.IH" [OF "8.prems"] show ?case
    by (auto simp: agree_def split: prod.splits)
next
  case (9 i accuVar iterVar iterRange accu cond step result ctx s)
  from "9.IH"(1) [OF "9.prems"] obtain fr s1 t1
    where rng: "Eval iterRange ctx s = (fr, s1)" "Eval iterRange ctx t = (fr, t1)"
      "sameObserved s1 t1"
    by (rule agreeE)
  show ?case
  proof (cases "HasTrait (Type fr) IterableType")
    case False
    then show ?thesis using rng by (simp add: agree_def)
  next
    case True
    then have it: "\<not> \<not> HasTrait (Type fr) IterableType" by simp
    obtain a0 s2 where g1: "poolGet s1 = (a0, s2)" by (cases "poolGet s1")
    obtain b0 t2 where g1': "poolGet t1 = (b0, t2)" by (cases "poolGet t1")
    have same2: "sameObserved s2 t2"
      using sameObserved_poolGet [OF rng(3)] g1 g1' by simp
    from "9.IH"(2) [OF rng(1) [symmetric] it g1 [symmetric] same2] obtain av s3 t3
      where ac: "Eval accu ctx s2 = (av, s3)" "Eval accu ctx t2 = (av, t3)" "sameObserved s3 t3"
      by (rule agreeE)
    obtain i0 s4 where g2: "poolGet s3 = (i0, s4)" by (cases "poolGet s3")
    obtain j0 t4 where g2': "poolGet t3 = (j0, t4)" by (cases "poolGet t3")
    have same4: "sameObserved s4 t4"
      using sameObserved_poolGet [OF ac(3)] g2 g2' by simp
    define accuCtx where "accuCtx = setVal av (setName accuVar (setParent ctx a0))"
    define iterCtx where "iterCtx = setName iterVar (setParent (Var accuCtx) i0)"
    define iterCtx' where "iterCtx' = setName iterVar (setParent (Var accuCtx) j0)"
    have accuCtx': "setVal av (setName accuVar (setParent ctx b0)) = accuCtx"
      by (simp add: accuCtx_def)
    have pn: "parent iterCtx' = parent iterCtx" "name iterCtx' = name iterCtx"
      by (simp_all add: iterCtx_def iterCtx'_def set_name_parent)
    from "9.IH"(3) [OF rng(1) [symmetric] it g1 [symmetric] ac(1) [symmetric] g2 [symmetric]
        accuCtx_def iterCtx_def same4 pn]
    have lp: "fst (foldLoop cond step (Iterator fr) accuCtx iterCtx s4) =
              fst (foldLoop cond step (Iterator fr) accuCtx iterCtx' t4)"
      "sameObserved (snd (snd (foldLoop cond step (Iterator fr) accuCtx iterCtx s4)))
         (snd (snd (foldLoop cond step (Iterator fr) accuCtx iterCtx' t4)))"
      by simp_all
    obtain af itf s5 where l1: "foldLoop cond step (Iterator fr) accuCtx iterCtx s4 = (af, itf, s5)"
      by (cases "foldLoop cond step (Iterator fr) accuCtx iterCtx s4") auto
    obtain af' itf' t5 where l2:
      "foldLoop cond step (Iterator fr) accuCtx iterCtx' t4 = (af', itf', t5)"
      by (cases "foldLoop cond step (Iterator fr) accuCtx iterCtx' t4") auto
    have af: "af' = af" and same5: "sameObserved s5 t5"
      using lp l1 l2 by simp_all
    have l1': "(af, (itf, s5)) = foldLoop cond step (Iterator fr) accuCtx iterCtx s4"
      using l1 by simp
    have "(itf, s5) = (itf, s5)" by simp
    from "9.IH"(4) [OF rng(1) [symmetric] it g1 [symmetric] ac(1) [symmetric] g2 [symmetric]
        accuCtx_def iterCtx_def l1' this same5] obtain rv s6 t6
      where res: "Eval result (Var af) s5 = (rv, s6)" "Eval result (Var af) t5 = (rv, t6)"
        "sameObserved s6 t6"
      by (rule agreeE)
    have "Eval (EvalFold i accuVar iterVar iterRange accu cond step result) ctx s
            = (rv, poolPut af (poolPut itf s6))"
      using rng(1) True g1 ac(1) g2 l1 res(1)
      by (simp add: accuCtx_def [symmetric] iterCtx_def [symmetric] del: set_all)
    moreover have "Eval (EvalFold i accuVar iterVar iterRange accu cond step result) ctx t
            = (rv, poolPut af (poolPut itf' t6))"
      using rng(2) True g1' ac(2) g2' l2 res(2) af accuCtx'
      by (simp add: iterCtx'_def [symmetric] del: set_all)
    ultimately show ?thesis
      using res(3) by (simp add: agree_def sameObserved_poolPut)
  qed
next
  case (10 inst arg argTypeName valueSet ctx s)
  from "10.IH" [OF "10.prems"] obtain v s1 t1
    where a: "Eval arg ctx s = (v, s1)" "Eval arg ctx t = (v, t1)" "sameObserved s1 t1"
    by (rule agreeE)
  then show ?case by (simp add: agree_def split: option.splits)
next
  case (11 inst observer ctx s)
  from "11.IH" [OF "11.prems"] obtain v s1 t1
    where a: "Eval inst ctx s = (v, s1)" "Eval inst ctx t = (v, t1)" "sameObserved s1 t1"
    by (rule agreeE)
  then show ?case by (simp add: agree_def sameObserved_def)
next
  case (12 i lhs rhs ctx s)
  from "12.IH"(1) [OF "12.prems"] obtain lv s1 t1
    where l: "Eval lhs ctx s = (lv, s1)" "Eval lhs ctx t = (lv, t1)" "sameObserved s1 t1"
    by (rule agreeE)
  from "12.IH"(2) [OF l(1) [symmetric] l(3)] obtain rv s2 t2
    where r: "Eval rhs ctx s1 = (rv, s2)" "Eval rhs ctx t1 = (rv, t2)" "sameObserved s2 t2"
    by (rule agreeE)
  show ?case using l r by (simp add: agree_def)
next
  case (13 i lhs rhs ctx s)
  from "13.IH"(1) [OF "13.prems"] obtain lv s1 t1
    where l: "Eval lhs ctx s = (lv, s1)" "Eval lhs ctx t = (lv, t1)" "sameObserved s1 t1"
    by (rule agreeE)
  from "13.IH"(2) [OF l(1) [symmetric] l(3)] obtain rv s2 t2
    where r: "Eval rhs ctx s1 = (rv, s2)" "Eval rhs ctx t1 = (rv, t2)" "sameObserved s2 t2"
    by (rule agreeE)
  show ?case using l r by (simp add: agree_def)
next
  case (14 i expr truthy falsy ctx s)
  from "14.IH"(1) [OF "14.prems"] obtain cv s1 t1
    where c: "Eval expr ctx s = (cv, s1)" "Eval expr ctx t = (cv, t1)" "sameObserved s1 t1"
    by (rule agreeE)
  from "14.IH"(2) [OF c(1) [symmetric] c(3)] obtain tv s2 t2
    where tr: "Eval truthy ctx s1 = (tv, s2)" "Eval truthy ctx t1 = (tv, t2)" "sameObserved s2 t2"
    by (rule agreeE)
  from "14.IH"(3) [OF c(1) [symmetric] tr(1) [symmetric] tr(3)] obtain fv s3 t3
    where fa: "Eval falsy ctx s2 = (fv, s3)" "Eval falsy ctx t2 = (fv, t3)" "sameObserved s3 t3"
    by (rule agreeE)
  show ?case using c tr fa by (simp add: agree_def split: option.splits)
next
  case (15 i accuVar iterVar iterRange accu cond step result ctx s)
  from "15.IH"(1) [OF "15.prems"] obtain fr s1 t1
    where rng: "Eval iterRange ctx s = (fr, s1)" "Eval iterRange ctx t = (fr, t1)"
      "sameObserved s1 t1"
    by (rule agreeE)
  show ?case
  proof (cases "HasTrait (Type fr) IterableType")
    case False
    then show ?thesis using rng by (simp add: agree_def)
  next
    case True
    then have it: "\<not> \<not> HasTrait (Type fr) IterableType" by simp
    obtain a0 s2 where g1: "poolGet s1 = (a0, s2)" by (cases "poolGet s1")
    obtain b0 t2 where g1': "poolGet t1 = (b0, t2)" by (cases "poolGet t1")
    have same2: "sameObserved s2 t2"
      using sameObserved_poolGet [OF rng(3)] g1 g1' by simp
    from "15.IH"(2) [OF rng(1) [symmetric] it g1 [symmetric] same2] obtain av s3 t3
      where ac: "Eval accu ctx s2 = (av, s3)" "Eval accu ctx t2 = (av, t3)" "sameObserved s3 t3"
      by (rule agreeE)
    obtain i0 s4 where g2: "poolGet s3 = (i0, s4)" by (cases "poolGet s3")
    obtain j0 t4 where g2': "poolGet t3 = (j0, t4)" by (cases "poolGet t3")
    have same4: "sameObserved s4 t4"
      using sameObserved_poolGet [OF ac(3)] g2 g2' by simp
    define accuCtx where "accuCtx = setVal av (setName accuVar (setParent ctx a0))"
    define iterCtx where "iterCtx = setName iterVar (setParent (Var accuCtx) i0)"
    define iterCtx' where "iterCtx' = setName iterVar (setParent (Var accuCtx) j0)"
    have accuCtx': "setVal av (setName accuVar (setParent ctx b0)) = accuCtx"
      by (simp add: accuCtx_def)
    have pn: "parent iterCtx' = parent iterCtx" "name iterCtx' = name iterCtx"
      by (simp_all add: iterCtx_def iterCtx'_def set_name_parent)
    from "15.IH"(3) [OF rng(1) [symmetric] it g1 [symmetric] ac(1) [symmetric] g2 [symmetric]
        accuCtx_def iterCtx_def same4 pn]
    have lp: "fst (exhaustiveFoldLoop cond step (Iterator fr) accuCtx iterCtx s4) =
              fst (exhaustiveFoldLoop cond step (Iterator fr) accuCtx iterCtx' t4)"
      "sameObserved (snd (snd (exhaustiveFoldLoop cond step (Iterator fr) accuCtx iterCtx s4)))
         (snd (snd (exhaustiveFoldLoop cond step (Iterator fr) accuCtx iterCtx' t4)))"
      by simp_all
    obtain af itf s5 where l1: "exhaustiveFoldLoop cond step (Iterator fr) accuCtx iterCtx s4 = (af, itf, s5)"
      by (cases "exhaustiveFoldLoop cond step (Iterator fr) accuCtx iterCtx s4") auto
    obtain af' itf' t5 where l2:
      "exhaustiveFoldLoop cond step (Iterator fr) accuCtx iterCtx' t4 = (af', itf', t5)"
      by (cases "exhaustiveFoldLoop cond step (Iterator fr) accuCtx iterCtx' t4") auto
    have af: "af' = af" and same5: "sameObserved s5 t5"
      using lp l1 l2 by simp_all
    have l1': "(af, (itf, s5)) = exhaustiveFoldLoop cond step (Iterator fr) accuCtx iterCtx s4"
      using l1 by simp
    have "(itf, s5) = (itf, s5)" by simp
    from "15.IH"(4) [OF rng(1) [symmetric] it g1 [symmetric] ac(1) [symmetric] g2 [symmetric]
        accuCtx_def iterCtx_def l1' this same5] obtain rv s6 t6
      where res: "Eval result (Var af) s5 = (rv, s6)" "Eval result (Var af) t5 = (rv, t6)"
        "sameObserved s6 t6"
      by (rule agreeE)
    have "Eval (EvalExhaustiveFold i accuVar iterVar iterRange accu cond step result) ctx s
            = (rv, poolPut af (poolPut itf s6))"
      using rng(1) True g1 ac(1) g2 l1 res(1)
      by (simp add: accuCtx_def [symmetric] iterCtx_def [symmetric] del: set_all)
    moreover have "Eval (EvalExhaustiveFold i accuVar iterVar iterRange accu cond step result) ctx t
            = (rv, poolPut af (poolPut itf' t6))"
      using rng(2) True g1' ac(2) g2' l2 res(2) af accuCtx'
      by (simp add: iterCtx'_def [symmetric] del: set_all)
    ultimately show ?thesis
      using res(3) by (simp add: agree_def sameObserved_poolPut)
  qed
next
  case (16 ctx s)
  then show ?case by (simp add: agree_def)
next
  case (17 e es ctx s)
  from "17.IH"(1) [OF "17.prems"] obtain v s1 t1
    where a: "Eval e ctx s = (v, s1)" "Eval e ctx t2 = (v, t1)" "sameObserved s1 t1"
    by (rule agreeE)
  from "17.IH"(2) [OF a(1) [symmetric] a(3)] obtain vs s2 t2'
    where b: "EvalElems es ctx s1 = (vs, s2)" "EvalElems es ctx t1 = (vs, t2')" "sameObserved s2 t2'"
    by (rule agreeE)
  show ?case using a b by (simp add: agree_def)
next
  case (18 vals ctx s)
  then show ?case by (simp add: agree_def)
next
  case (19 k ks ctx s)
  then show ?case by (simp add: agree_def)
next
  case (20 k ks v vs ctx s)
  from "20.IH"(1) [OF "20.prems"] obtain kv s1 t1
    where a: "Eval k ctx s = (kv, s1)" "Eval k ctx t3 = (kv, t1)" "sameObserved s1 t1"
    by (rule agreeE)
  from "20.IH"(2) [OF a(1) [symmetric] a(3)] obtain vv s2 t2
    where b: "Eval v ctx s1 = (vv, s2)" "Eval v ctx t1 = (vv, t2)" "sameObserved s2 t2"
    by (rule agreeE)
  from "20.IH"(3) [OF a(1) [symmetric] b(1) [symmetric] b(3)] obtain kvs s3 t3'
    where c: "EvalEntries ks vs ctx s2 = (kvs, s3)" "EvalEntries ks vs ctx t2 = (kvs, t3')"
      "sameObserved s3 t3'"
    by (rule agreeE)
  show ?case using a b c by (simp add: agree_def)
next
  case (21 cond step accuCtx iterCtx s)
  then show ?case by simp
next
  case (22 cond step x xs accuCtx iterCtx s)
  define ic where "ic = setVal x iterCtx"
  have ic': "setVal x it4' = ic"
    unfolding ic_def by (rule setVal_eq [OF "22.prems"(2,3)])
  from "22.IH"(1) [OF ic_def "22.prems"(1)] obtain cv s1 t1
    where c: "Eval cond (Var ic) s = (cv, s1)" "Eval cond (Var ic) t4 = (cv, t1)"
      "sameObserved s1 t1"
    by (rule agreeE)
  show ?case
  proof (cases "cv = BoolVal False")
    case True
    then show ?thesis using c ic' by (simp add: ic_def [symmetric])
  next
    case False
    from "22.IH"(2) [OF ic_def c(1) [symmetric] False c(3)] obtain sv s2 t2
      where st: "Eval step (Var ic) s1 = (sv, s2)" "Eval step (Var ic) t1 = (sv, t2)"
        "sameObserved s2 t2"
      by (rule agreeE)
    define ac where "ac = setVal sv accuCtx"
    from "22.IH"(3) [OF ic_def c(1) [symmetric] False st(1) [symmetric] ac_def st(3) refl refl]
    show ?thesis using c st ic' False
      by (simp add: ic_def [symmetric] ac_def [symmetric])
  qed
next
  case (23 cond step accuCtx iterCtx s)
  then show ?case by simp
next
  case (24 cond step x xs accuCtx iterCtx s)
  define ic where "ic = setVal x iterCtx"
  have ic': "setVal x it5' = ic"
    unfolding ic_def by (rule setVal_eq [OF "24.prems"(2,3)])
  from "24.IH"(1) [OF ic_def "24.prems"(1)] obtain cv s1 t1
    where c: "Eval cond (Var ic) s = (cv, s1)" "Eval cond (Var ic) t5 = (cv, t1)"
      "sameObserved s1 t1"
    by (rule agreeE)
  from "24.IH"(2) [OF ic_def c(1) [symmetric] c(3)] obtain sv s2 t2
    where st: "Eval step (Var ic) s1 = (sv, s2)" "Eval step (Var ic) t1 = (sv, t2)"
      "sameObserved s2 t2"
    by (rule agreeE)
  define ac where "ac = setVal sv accuCtx"
  from "24.IH"(3) [OF ic_def c(1) [symmetric] st(1) [symmetric] ac_def st(3) refl refl]
  show ?case using c st ic'
    by (simp add: ic_def [symmetric] ac_def [symmetric])
qed


subsection \<open>The exhaustive fold\<close>

lemma exhaustiveFoldLoop_spec:
  assumes "sameObserved s t"
  shows "fst (exhaustiveFoldLoop cond step xs (VarActivation (Some ctx) accuVar (Some a))
             (VarActivation (Some (Var (VarActivation (Some ctx) accuVar (Some a)))) iterVar iv) s)
        = VarActivation (Some ctx) accuVar
            (Some (fst (foldl (specFoldStep cond step ctx accuVar iterVar) (a, t) xs)))
      \<and> sameObserved
          (snd (snd (exhaustiveFoldLoop cond step xs (VarActivation (Some ctx) accuVar (Some a))
             (VarActivation (Some (Var (VarActivation (Some ctx) accuVar (Some a)))) iterVar iv) s)))
          (snd (foldl (specFoldStep cond step ctx accuVar iterVar) (a, t) xs))"
  using assms
proof (induction xs arbitrary: a iv s t)
  case Nil
  then show ?case by simp
next
  case (Cons x xs)
  define scope where "scope = Var (VarActivation
      (Some (Var (VarActivation (Some ctx) accuVar (Some a)))) iterVar (Some x))"
  from pool_independent(1) [OF Cons.prems, of cond scope] obtain c s1 t1
    where c: "Eval cond scope s = (c, s1)" "Eval cond scope t = (c, t1)" "sameObserved s1 t1"
    by (rule agreeE)
  from pool_independent(1) [OF c(3), of step scope] obtain v s2 t2
    where st: "Eval step scope s1 = (v, s2)" "Eval step scope t1 = (v, t2)" "sameObserved s2 t2"
    by (rule agreeE)
  have sp: "specFoldStep cond step ctx accuVar iterVar (a, t) x = (v, t2)"
    using c(2) st(2) by (simp add: specFoldStep_def scope_def [symmetric])
  have lp: "exhaustiveFoldLoop cond step (x # xs) (VarActivation (Some ctx) accuVar (Some a))
             (VarActivation (Some (Var (VarActivation (Some ctx) accuVar (Some a)))) iterVar iv) s
      = exhaustiveFoldLoop cond step xs (VarActivation (Some ctx) accuVar (Some v))
             (VarActivation (Some (Var (VarActivation (Some ctx) accuVar (Some v)))) iterVar (Some x)) s2"
    using c(1) st(1) by (simp add: scope_def [symmetric] Let_def)
  show ?case
    unfolding lp foldl_Cons sp by (rule Cons.IH [OF st(3)])
qed

lemma exhaustive_fold_spec:
  "agree (Eval (EvalExhaustiveFold i accuVar iterVar iterRange accu cond step result) ctx s)
     (specExhaustiveFold accuVar iterVar iterRange accu cond step result ctx s)"
proof -
  obtain fr s1 where rng: "Eval iterRange ctx s = (fr, s1)" by (cases "Eval iterRange ctx s")
  show ?thesis
  proof (cases "HasTrait (Type fr) IterableType")
    case False
    then show ?thesis using rng
      by (simp add: specExhaustiveFold_def agree_def sameObserved_def)
  next
    case True
    obtain a0 s2 where g1: "poolGet s1 = (a0, s2)" by (cases "poolGet s1")
    have same2: "sameObserved s2 s1"
      using g1 by (auto simp: poolGet_def sameObserved_def split: list.splits)
    from pool_independent(1) [OF same2, of accu ctx] obtain av s3 t3
      where ac: "Eval accu ctx s2 = (av, s3)" "Eval accu ctx s1 = (av, t3)" "sameObserved s3 t3"
      by (rule agreeE)
    obtain i0 s4 where g2: "poolGet s3 = (i0, s4)" by (cases "poolGet s3")
    have same4: "sameObserved s4 t3"
      using g2 ac(3) by (auto simp: poolGet_def sameObserved_def split: list.splits)
    define accuCtx where "accuCtx = VarActivation (Some ctx) accuVar (Some av)"
    define iterCtx where "iterCtx = VarActivation (Some (Var accuCtx)) iterVar (val i0)"
    obtain af itf s5 where l1:
      "exhaustiveFoldLoop cond step (Iterator fr) accuCtx iterCtx s4 = (af, itf, s5)"
      by (cases "exhaustiveFoldLoop cond step (Iterator fr) accuCtx iterCtx s4") auto
    obtain a' t5 where sp:
      "foldl (specFoldStep cond step ctx accuVar iterVar) (av, t3) (Iterator fr) = (a', t5)"
      by (cases "foldl (specFoldStep cond step ctx accuVar iterVar) (av, t3) (Iterator fr)")
    from exhaustiveFoldLoop_spec [OF same4, of cond step "Iterator fr" ctx accuVar av iterVar "val i0"]
    have af: "af = VarActivation (Some ctx) accuVar (Some a')" and same5: "sameObserved s5 t5"
      using l1 sp by (simp_all add: accuCtx_def iterCtx_def)
    from pool_independent(1) [OF same5, of result "Var af"] obtain rv s6 t6
      where res: "Eval result (Var af) s5 = (rv, s6)" "Eval result (Var af) t5 = (rv, t6)"
        "sameObserved s6 t6"
      by (rule agreeE)
    have "Eval (EvalExhaustiveFold i accuVar iterVar iterRange accu cond step result) ctx s
            = (rv, poolPut af (poolPut itf s6))"
      using rng True g1 ac(1) g2 l1 res(1)
      by (simp add: set_name_parent accuCtx_def [symmetric] iterCtx_def [symmetric])
    moreover have "specExhaustiveFold accuVar iterVar iterRange accu cond step result ctx s
            = (rv, t6)"
      using rng True ac(2) sp res(2) af by (simp add: specExhaustiveFold_def)
    ultimately show ?thesis
      using res(3) by (simp add: agree_def sameObserved_def poolPut_def)
  qed
qed


text \<open>
  Claim C6. For every activation the exhaustive fold returns the value, and has the
  observed effects, of the fold of the specification: when the range evaluates to an
  iterable value, every element of the range is visited, the condition is evaluated at each
  element and its value dropped, the value of the step becomes the accumulator, and the
  result expression is evaluated in the last accumulator scope. When the range value is not
  iterable, the fold returns right after the evaluation of the range, with the Error the
  range evaluated to or else an "expected iterable type" Error.
\<close>

theorem exhaustive_fold:
  "fst (Eval (EvalExhaustiveFold i accuVar iterVar iterRange accu cond step result) ctx s)
     = fst (specExhaustiveFold accuVar iterVar iterRange accu cond step result ctx s)
   \<and> observed (snd (Eval (EvalExhaustiveFold i accuVar iterVar iterRange accu cond step result)
        ctx s))
     = observed (snd (specExhaustiveFold accuVar iterVar iterRange accu cond step result ctx s))
   \<and> (\<forall>foldRange s1.
        Eval iterRange ctx s = (foldRange, s1) \<and> \<not> HasTrait (Type foldRange) IterableType \<longrightarrow>
        Eval (EvalExhaustiveFold i accuVar iterVar iterRange accu cond step result) ctx s
          = (if IsError foldRange then foldRange else ErrVal (expectedIterable foldRange), s1))"
  using exhaustive_fold_spec [of i accuVar iterVar iterRange accu cond step result ctx s]
  by (simp add: ValOrErr_def agree_def sameObserved_def)

theorem exhaustive_fold_witness:
  "fst (Eval sumFold EmptyActivation \<lparr>varActivationPool = [], observed = []\<rparr>) = IntVal 6
   \<and> observed (snd (Eval sumFold EmptyActivation \<lparr>varActivationPool = [], observed = []\<rparr>))
       = [(4, BoolVal False), (4, BoolVal False), (4, BoolVal False)]
   \<and> Eval (EvalExhaustiveFold 1 ''accu'' ''i'' (EvalConst 2 (IntVal 5)) (EvalConst 3 (IntVal 0))
         (EvalConst 4 (BoolVal True)) (EvalIdent 5 ''i'') (EvalIdent 6 ''accu''))
       EmptyActivation \<lparr>varActivationPool = [], observed = []\<rparr>
       = (ErrVal (''got '' @ [CHR 0x27] @ ''types.Int'' @ [CHR 0x27] @ '', expected iterable type''),
          \<lparr>varActivationPool = [], observed = []\<rparr>)"
proof -
  have sp: "specExhaustiveFold ''accu'' ''i'' (EvalConst 2 (ListVal [IntVal 1, IntVal 2, IntVal 3]))
       (EvalConst 3 (IntVal 0)) (EvalWatch (EvalConst 4 (BoolVal False)) traceObserver)
       (EvalBinary 5 ''add_int64'' (EvalIdent 6 ''accu'') (EvalIdent 7 ''i'') addImpl)
       (EvalIdent 8 ''accu'') EmptyActivation \<lparr>varActivationPool = [], observed = []\<rparr>
     = (IntVal 6, \<lparr>varActivationPool = [],
          observed = [(4, BoolVal False), (4, BoolVal False), (4, BoolVal False)]\<rparr>)"
    by (simp add: specExhaustiveFold_def specFoldStep_def addImpl_def traceObserver_def)
  have r: "Eval (EvalConst 2 (IntVal 5)) EmptyActivation
             \<lparr>varActivationPool = [], observed = []\<rparr>
           = (IntVal 5, \<lparr>varActivationPool = [], observed = []\<rparr>)
         \<and> \<not> HasTrait (Type (IntVal 5)) IterableType"
    by simp
  show ?thesis
    using exhaustive_fold [of 1 "''accu''" "''i''"
        "EvalConst 2 (ListVal [IntVal 1, IntVal 2, IntVal 3])" "EvalConst 3 (IntVal 0)"
        "EvalWatch (EvalConst 4 (BoolVal False)) traceObserver"
        "EvalBinary 5 ''add_int64'' (EvalIdent 6 ''accu'') (EvalIdent 7 ''i'') addImpl"
        "EvalIdent 8 ''accu''" EmptyActivation "\<lparr>varActivationPool = [], observed = []\<rparr>"]
      exhaustive_fold [of 1 "''accu''" "''i''" "EvalConst 2 (IntVal 5)" "EvalConst 3 (IntVal 0)"
        "EvalConst 4 (BoolVal True)" "EvalIdent 5 ''i''" "EvalIdent 6 ''accu''" EmptyActivation
        "\<lparr>varActivationPool = [], observed = []\<rparr>"] r
    unfolding sp sumFold_def [symmetric]
    by (simp add: IsError_def ValOrErr_def expectedIterable_def)
qed

subsection \<open>The scratch activations of a fold\<close>

lemma exhaustiveFoldLoop_shape:
  "\<exists>a' iv' s'. exhaustiveFoldLoop cond step xs (VarActivation (Some ctx) accuVar (Some a))
       (VarActivation (Some (Var (VarActivation (Some ctx) accuVar (Some a)))) iterVar iv) s
     = (VarActivation (Some ctx) accuVar (Some a'),
        VarActivation (Some (Var (VarActivation (Some ctx) accuVar (Some a')))) iterVar iv', s')"
proof (induction xs arbitrary: a iv s)
  case Nil
  then show ?case by simp
next
  case (Cons x xs)
  define scope where "scope = Var (VarActivation
      (Some (Var (VarActivation (Some ctx) accuVar (Some a)))) iterVar (Some x))"
  obtain c s1 where c: "Eval cond scope s = (c, s1)" by (cases "Eval cond scope s")
  obtain v s2 where st: "Eval step scope s1 = (v, s2)" by (cases "Eval step scope s1")
  have lp: "exhaustiveFoldLoop cond step (x # xs) (VarActivation (Some ctx) accuVar (Some a))
             (VarActivation (Some (Var (VarActivation (Some ctx) accuVar (Some a)))) iterVar iv) s
      = exhaustiveFoldLoop cond step xs (VarActivation (Some ctx) accuVar (Some v))
             (VarActivation (Some (Var (VarActivation (Some ctx) accuVar (Some v)))) iterVar (Some x)) s2"
    using c st by (simp add: scope_def [symmetric] Let_def)
  show ?case unfolding lp by (rule Cons.IH)
qed

lemma exhaustive_fold_pool:
  assumes "Eval iterRange ctx s = (foldRange, s1)" and "HasTrait (Type foldRange) IterableType"
  shows "\<exists>a it rest.
      varActivationPool (snd (Eval (EvalExhaustiveFold i accuVar iterVar iterRange accu cond step
        result) ctx s)) = a # it # rest
      \<and> name a = accuVar \<and> parent a = Some ctx \<and> val a \<noteq> None
      \<and> name it = iterVar \<and> parent it = Some (Var a)"
proof -
  obtain a0 s2 where g1: "poolGet s1 = (a0, s2)" by (cases "poolGet s1")
  obtain av s3 where ac: "Eval accu ctx s2 = (av, s3)" by (cases "Eval accu ctx s2")
  obtain i0 s4 where g2: "poolGet s3 = (i0, s4)" by (cases "poolGet s3")
  from exhaustiveFoldLoop_shape [of cond step "Iterator foldRange" ctx accuVar av iterVar "val i0" s4]
  obtain a' iv' s5 where l1:
    "exhaustiveFoldLoop cond step (Iterator foldRange) (VarActivation (Some ctx) accuVar (Some av))
       (VarActivation (Some (Var (VarActivation (Some ctx) accuVar (Some av)))) iterVar (val i0)) s4
     = (VarActivation (Some ctx) accuVar (Some a'),
        VarActivation (Some (Var (VarActivation (Some ctx) accuVar (Some a')))) iterVar iv', s5)"
    by blast
  obtain rv s6 where res:
    "Eval result (Var (VarActivation (Some ctx) accuVar (Some a'))) s5 = (rv, s6)"
    by (cases "Eval result (Var (VarActivation (Some ctx) accuVar (Some a'))) s5")
  have "Eval (EvalExhaustiveFold i accuVar iterVar iterRange accu cond step result) ctx s
      = (rv, poolPut (VarActivation (Some ctx) accuVar (Some a'))
           (poolPut (VarActivation (Some (Var (VarActivation (Some ctx) accuVar (Some a'))))
              iterVar iv') s6))"
    using assms g1 ac g2 l1 res by (simp add: set_name_parent)
  then show ?thesis by (simp add: poolPut_def)
qed

text \<open>
  Claim C8, as the code has it. Evaluating any node gives the same value and the same
  observed effects whatever the pool holds, so no binding left in a pooled activation is
  observable in a later evaluation: a fold assigns the slots of the activations it checks
  out before it reads them. An exhaustive fold whose range is iterable returns through one
  path, on which it puts the accumulator activation and the iteration activation back
  into the pool; the value slot of the accumulator activation is still assigned then. A
  fold whose range is not iterable returns before it checks anything out.
\<close>

theorem fold_pool_discipline:
  "(observed s = observed t \<longrightarrow>
      fst (Eval n ctx s) = fst (Eval n ctx t)
      \<and> observed (snd (Eval n ctx s)) = observed (snd (Eval n ctx t)))
   \<and> (\<forall>foldRange s1.
        Eval iterRange ctx s = (foldRange, s1) \<and> HasTrait (Type foldRange) IterableType \<longrightarrow>
        (\<exists>a it rest.
           varActivationPool (snd (Eval (EvalExhaustiveFold i accuVar iterVar iterRange accu cond
             step result) ctx s)) = a # it # rest
           \<and> name a = accuVar \<and> parent a = Some ctx \<and> val a \<noteq> None
           \<and> name it = iterVar \<and> parent it = Some (Var a)))
   \<and> (\<forall>foldRange s1.
        Eval iterRange ctx s = (foldRange, s1) \<and> \<not> HasTrait (Type foldRange) IterableType \<longrightarrow>
        snd (Eval (EvalExhaustiveFold i accuVar iterVar iterRange accu cond step result) ctx s)
          = s1)"
proof (intro conjI impI allI)
  assume "observed s = observed t"
  then have "agree (Eval n ctx s) (Eval n ctx t)"
    by (intro pool_independent(1)) (simp add: sameObserved_def)
  then show "fst (Eval n ctx s) = fst (Eval n ctx t)"
    and "observed (snd (Eval n ctx s)) = observed (snd (Eval n ctx t))"
    by (simp_all add: agree_def sameObserved_def)
next
  fix foldRange s1
  assume "Eval iterRange ctx s = (foldRange, s1) \<and> HasTrait (Type foldRange) IterableType"
  then show "\<exists>a it rest.
           varActivationPool (snd (Eval (EvalExhaustiveFold i accuVar iterVar iterRange accu cond
             step result) ctx s)) = a # it # rest
           \<and> name a = accuVar \<and> parent a = Some ctx \<and> val a \<noteq> None
           \<and> name it = iterVar \<and> parent it = Some (Var a)"
    using exhaustive_fold_pool by blast
next
  fix foldRange s1
  assume "Eval iterRange ctx s = (foldRange, s1) \<and> \<not> HasTrait (Type foldRange) IterableType"
  then show "snd (Eval (EvalExhaustiveFold i accuVar iterVar iterRange accu cond step result)
      ctx s) = s1"
    by simp
qed

theorem fold_pool_discipline_witness:
  "fst (Eval sumFold EmptyActivation
      \<lparr>varActivationPool = [VarActivation None ''i'' (Some (IntVal 100)),
          VarActivation None ''accu'' (Some (IntVal 7))], observed = []\<rparr>) = IntVal 6
   \<and> varActivationPool (snd (Eval sumFold EmptyActivation
        \<lparr>varActivationPool = [], observed = []\<rparr>))
     = [VarActivation (Some EmptyActivation) ''accu'' (Some (IntVal 6)),
        VarActivation (Some (Var (VarActivation (Some EmptyActivation) ''accu'' (Some (IntVal 6)))))
          ''i'' (Some (IntVal 3))]"
proof -
  have e: "Eval sumFold EmptyActivation \<lparr>varActivationPool = [], observed = []\<rparr>
     = (IntVal 6, \<lparr>varActivationPool =
          [VarActivation (Some EmptyActivation) ''accu'' (Some (IntVal 6)),
           VarActivation (Some (Var (VarActivation (Some EmptyActivation) ''accu''
             (Some (IntVal 6))))) ''i'' (Some (IntVal 3))],
         observed = [(4, BoolVal False), (4, BoolVal False), (4, BoolVal False)]\<rparr>)"
    by (simp add: sumFold_def poolGet_def poolPut_def addImpl_def traceObserver_def Let_def)
  show ?thesis
    using fold_pool_discipline [of "\<lparr>varActivationPool = [], observed = []\<rparr>"
        "\<lparr>varActivationPool = [VarActivation None ''i'' (Some (IntVal 100)),
          VarActivation None ''accu'' (Some (IntVal 7))], observed = []\<rparr>" sumFold EmptyActivation]
    unfolding e by simp
qed

text \<open>
  The claim as the specification words it does not hold: the value slots are not reset
  after use. After the sum of \<open>[1, 2, 3]\<close> the pooled activations still bind the
  accumulator to 6 and the iteration variable to 3, and the next checkout hands out the
  activation that binds the accumulator.
\<close>

theorem fold_pool_value_slot_counterexample:
  "map val (varActivationPool (snd (Eval sumFold EmptyActivation
      \<lparr>varActivationPool = [], observed = []\<rparr>)))
     = [Some (IntVal 6), Some (IntVal 3)]
   \<and> ResolveNameVar (fst (poolGet (snd (Eval sumFold EmptyActivation
        \<lparr>varActivationPool = [], observed = []\<rparr>)))) ''accu'' = Some (IntVal 6)"
  by (simp add: sumFold_def poolGet_def poolPut_def addImpl_def traceObserver_def Let_def)


end
